theory Spec2Isabelle
  imports Main "HOL-Library.Sublist"
begin

section \<open>Git Sync: the synchronisation run of \<^verbatim>\<open>src/main.ts\<close>\<close>

text \<open>
  The development embeds the second (current) \<^verbatim>\<open>GitSyncPlugin\<close> class of
  \<^verbatim>\<open>src/main.ts\<close>: \<^verbatim>\<open>syncVault\<close>, \<^verbatim>\<open>handleSyncError\<close>,
  \<^verbatim>\<open>startAutoSync\<close>, \<^verbatim>\<open>stopAutoSync\<close> and the helpers they call.

  \<^item> The plugin object is a record; a method takes it and returns it updated.
  \<^item> Everything a method does to the outside (a call of the git client, a
    \<^verbatim>\<open>new Notice\<close>, \<^verbatim>\<open>updateStatusBar\<close>, \<^verbatim>\<open>saveData\<close>, a timer call) is
    appended to the event list of the record, in program order.
  \<^item> The git client is external: what each \<^verbatim>\<open>await this.git...\<close> of one run
    yields (a value, or a rejection with an error object) is an input, one field
    of \<open>git_env\<close> per call site.
  \<^item> \<^verbatim>\<open>console.log/warn/error\<close> are not modelled. Notices, the status bar and
    \<^verbatim>\<open>saveData\<close> of the host are taken not to throw.
\<close>

subsection \<open>Strings\<close>

text \<open>\<^verbatim>\<open>s.includes(t)\<close>: \<open>t\<close> occurs in \<open>s\<close> as a contiguous substring.\<close>

fun str_includes :: "string \<Rightarrow> string \<Rightarrow> bool" where
  "str_includes [] t = (t = [])"
| "str_includes (c # s) t = (prefix t (c # s) \<or> str_includes s t)"

text \<open>\<^verbatim>\<open>s.toLowerCase()\<close> on the ASCII letters.\<close>

definition lower_char :: "char \<Rightarrow> char" where
  "lower_char c =
     (case map_of (zip ''ABCDEFGHIJKLMNOPQRSTUVWXYZ'' ''abcdefghijklmnopqrstuvwxyz'') c of
        None \<Rightarrow> c
      | Some l \<Rightarrow> l)"

definition toLowerCase :: "string \<Rightarrow> string" where
  "toLowerCase s = map lower_char s"

text \<open>\<^verbatim>\<open>s.replace(pat, rep)\<close> with a string pattern: the first occurrence only.\<close>

fun str_replace :: "string \<Rightarrow> string \<Rightarrow> string \<Rightarrow> string" where
  "str_replace [] pat rep = (if pat = [] then rep else [])"
| "str_replace (c # s) pat rep =
     (if prefix pat (c # s) then rep @ drop (length pat) (c # s)
      else c # str_replace s pat rep)"

text \<open>A number inside a template literal: decimal digits, a sign when negative.\<close>

definition digit_char :: "nat \<Rightarrow> char" where
  "digit_char d = ''0123456789'' ! d"

fun show_nat :: "nat \<Rightarrow> string" where
  "show_nat n =
     (if n < 10 then [digit_char n] else show_nat (n div 10) @ [digit_char (n mod 10)])"

declare show_nat.simps [simp del]

definition show_int :: "int \<Rightarrow> string" where
  "show_int i = (if i < 0 then CHR ''-'' # show_nat (nat (- i)) else show_nat (nat i))"

text \<open>A string between apostrophes, as in \<^verbatim>\<open>'${currentBranch}'\<close>.\<close>

definition quoted :: "string \<Rightarrow> string" where
  "quoted s = [CHR 0x27] @ s @ [CHR 0x27]"

subsection \<open>Data\<close>

text \<open>
  \<^verbatim>\<open>GitSyncSettings\<close>. The two numbers are whole numbers here: the settings tab
  stores \<^verbatim>\<open>Number(value)\<close> with a floor of 1 and \<^verbatim>\<open>parseInt(value)\<close>.
\<close>

datatype auth_method = ssh | https

record settings =
  commitInterval :: int
  repoUrl :: string
  authMethod :: auth_method
  autoSync :: bool
  lastSync :: string
  commitMessage :: string
  logMaxEntries :: int

text \<open>\<^verbatim>\<open>StatusResult\<close> of simple-git, the fields the run reads. \<open>None\<close> is \<^verbatim>\<open>null\<close>.\<close>

record file_status =
  path :: string
  index :: string
  working_dir :: string

record status_result =
  files :: "file_status list"
  current :: "string option"
  tracking :: "string option"
  ahead :: int
  behind :: int

text \<open>
  An error object: \<^verbatim>\<open>name\<close>, \<^verbatim>\<open>message\<close>, and the optional \<^verbatim>\<open>git\<close> response
  (\<^verbatim>\<open>failed\<close>, \<^verbatim>\<open>message\<close>) that simple-git attaches to some rejections.
\<close>

record git_response =
  failed :: bool
  response_message :: string

datatype js_error = Error (name: string) (message: string) (git_response: "git_response option")

text \<open>\<^verbatim>\<open>new Error(m)\<close>.\<close>

definition new_Error :: "string \<Rightarrow> js_error" where
  "new_Error m = Error ''Error'' m None"

text \<open>The calls of the git client, with their arguments.\<close>

datatype git_call =
    version_call
  | status_call
  | stash_call "string list"
  | fetch_call
  | rebase_call "string list"
  | add_call string
  | commit_call string
  | push_call

datatype event =
    Git git_call
  | Notice string
  | Status string
  | SaveData settings
  | SetInterval nat int
  | ClearInterval nat

text \<open>
  The plugin object. \<open>git\<close> says whether \<^verbatim>\<open>this.git\<close> is a client (not \<^verbatim>\<open>null\<close>);
  \<open>syncInterval\<close> is the handle of the installed timer; \<open>persisted\<close> is the record
  last written by \<^verbatim>\<open>saveData\<close>.
\<close>

record plugin =
  settings :: settings
  git :: bool
  isSyncing :: bool
  syncInterval :: "nat option"
  persisted :: settings
  events :: "event list"

text \<open>
  What the outside answers during one run: the result of each awaited git call
  (\<open>Inl\<close> a rejection), the two readings of the clock
  (\<^verbatim>\<open>moment().format("YYYY-MM-DD HH:mm:ss")\<close>), and whether the vault adapter is a
  \<^verbatim>\<open>FileSystemAdapter\<close>.
\<close>

record git_env =
  initialStatus :: "js_error + status_result"
  stashResult :: "js_error + string"
  fetchResult :: "js_error + unit"
  statusAfterFetch :: "js_error + status_result"
  rebaseResult :: "js_error + unit"
  abortResult :: "js_error + unit"
  stashPopResult :: "js_error + unit"
  addResult :: "js_error + unit"
  finalStatus :: "js_error + status_result"
  commitResult :: "js_error + unit"
  pushResult :: "js_error + unit"
  commitDate :: string
  syncDate :: string
  localFileSystem :: bool

text \<open>How a block of the run ends: normally, by \<^verbatim>\<open>return\<close>, or by \<^verbatim>\<open>throw\<close>.\<close>

datatype 'a exit = Done 'a | Returned | Threw js_error

subsection \<open>Effects\<close>

definition emit :: "event \<Rightarrow> plugin \<Rightarrow> plugin" where
  "emit e p = p\<lparr>events := events p @ [e]\<rparr>"

definition notice :: "string \<Rightarrow> plugin \<Rightarrow> plugin" where
  "notice m p = emit (Notice m) p"

definition updateStatusBar :: "string \<Rightarrow> plugin \<Rightarrow> plugin" where
  "updateStatusBar t p = emit (Status (''Git Sync: '' @ t)) p"

text \<open>
  \<^verbatim>\<open>saveSettings\<close>: \<^verbatim>\<open>saveData\<close> writes the settings. The observer
  \<^verbatim>\<open>onExternalSettingsChange\<close> it then calls only redraws the settings tab and is
  left out.
\<close>

definition saveSettings :: "plugin \<Rightarrow> plugin" where
  "saveSettings p = emit (SaveData (settings p)) (p\<lparr>persisted := settings p\<rparr>)"

text \<open>\<^verbatim>\<open>await this.git.c(...)\<close>: the call is made, then its result is known.\<close>

definition await :: "git_call \<Rightarrow> js_error + 'a \<Rightarrow> plugin \<Rightarrow> 'a exit \<times> plugin" where
  "await c r p = (case r of Inl e \<Rightarrow> (Threw e, emit (Git c) p)
                          | Inr v \<Rightarrow> (Done v, emit (Git c) p))"

text \<open>The events a method appended to those of the state it started from.\<close>

definition new_events :: "plugin \<Rightarrow> plugin \<Rightarrow> event list" where
  "new_events p p' = drop (length (events p)) (events p')"

definition git_calls :: "event list \<Rightarrow> git_call list" where
  "git_calls es = concat (map (\<lambda>e. case e of Git c \<Rightarrow> [c] | _ \<Rightarrow> []) es)"

definition notices :: "event list \<Rightarrow> string list" where
  "notices es = concat (map (\<lambda>e. case e of Notice m \<Rightarrow> [m] | _ \<Rightarrow> []) es)"

definition statuses :: "event list \<Rightarrow> string list" where
  "statuses es = concat (map (\<lambda>e. case e of Status t \<Rightarrow> [t] | _ \<Rightarrow> []) es)"

text \<open>Truthiness of a string-or-null: neither \<^verbatim>\<open>null\<close> nor empty.\<close>

definition truthy :: "string option \<Rightarrow> bool" where
  "truthy s = (case s of None \<Rightarrow> False | Some v \<Rightarrow> v \<noteq> [])"

subsection \<open>\<^verbatim>\<open>handleSyncError\<close>\<close>

text \<open>
  \<^verbatim>\<open>error instanceof Error && error.message ? error.message : String(error)\<close>: the
  string of an error with an empty message is its name.
\<close>

definition error_text :: "js_error \<Rightarrow> string" where
  "error_text e = (if message e \<noteq> [] then message e else name e)"

text \<open>
  The chain of tests of \<^verbatim>\<open>handleSyncError\<close>: the notice it shows and the status-bar
  text it sets (none when the message is empty).
\<close>

definition classify :: "js_error \<Rightarrow> string \<times> string option" where
  "classify e =
     (let m = error_text e in
      if m \<noteq> [] then
        if str_includes m ''CONFLICT'' \<or> str_includes m ''conflict'' \<or>
           (case git_response e of None \<Rightarrow> False
            | Some g \<Rightarrow> failed g \<and> response_message g \<noteq> [] \<and>
                        str_includes (response_message g) ''conflict'')
        then (''Git Sync: A conflict occurred. Please resolve it manually in your Git client.'',
              Some ''Conflict!'')
        else if str_includes m ''Host key verification failed'' \<or>
                str_includes m ''Permission denied''
        then (''Git Sync: Authentication failed. Check SSH keys or HTTPS credentials.'',
              Some ''Auth Error'')
        else if str_includes m ''not a git repository''
        then (''Git Sync: Vault is not a Git repository or .git folder is missing.'',
              Some ''Not a repo'')
        else if str_includes m ''Could not read from remote repository''
        then (''Git Sync: Cannot connect to remote. Check repository URL and network.'',
              Some ''Remote Error'')
        else if str_includes m ''Merge conflict during rebase, operation aborted''
        then (''Git Sync: Rebase conflict. Manual resolution needed. Rebase was aborted.'',
              Some ''Rebase Conflict!'')
        else if str_includes m ''Conflict applying stashed changes''
        then (''Git Sync: Stash conflict. Manual resolution needed. Stash may still be present.'',
              Some ''Stash Conflict!'')
        else (''Git Sync: Error - '' @ take 100 m @ ''...'', Some ''Sync Error'')
      else (''Git Sync: An unknown error occurred.'', None))"

definition handleSyncError :: "js_error \<Rightarrow> plugin \<Rightarrow> plugin" where
  "handleSyncError e p =
     (case classify e of
        (errorMessage, Some t) \<Rightarrow> notice errorMessage (updateStatusBar t p)
      | (errorMessage, None) \<Rightarrow> notice errorMessage p)"

subsection \<open>\<^verbatim>\<open>initializeGit\<close>\<close>

text \<open>
  On a local vault the client is created and \<^verbatim>\<open>version()\<close> is called on it; the
  handlers of that promise run later and are not part of this model. Otherwise the
  client is set to \<^verbatim>\<open>null\<close>.
\<close>

definition initializeGit :: "git_env \<Rightarrow> plugin \<Rightarrow> plugin" where
  "initializeGit env p =
     (if localFileSystem env then emit (Git version_call) (p\<lparr>git := True\<rparr>)
      else (updateStatusBar ''Error: Not local vault''
             (notice ''Git Sync: Vault must be on a local filesystem for Git Sync to work.'' p))
           \<lparr>git := False\<rparr>)"

subsection \<open>\<^verbatim>\<open>syncVault\<close>\<close>

text \<open>The three guards before the run; \<open>Inl\<close> is an exit without a run.\<close>

definition sync_guard :: "git_env \<Rightarrow> plugin \<Rightarrow> plugin + plugin" where
  "sync_guard env p =
     (if isSyncing p then Inl (notice ''Git Sync: Sync already in progress.'' p)
      else
        let p1 = (if \<not> git p
                  then initializeGit env
                         (updateStatusBar ''Error: Git not ready''
                           (notice ''Git Sync: Git is not initialized. Check plugin settings and console.'' p))
                  else p)
        in if \<not> git p1 then Inl p1
           else if repoUrl (settings p1) = []
           then Inl (notice ''Git Sync: Repository URL is not configured in settings.''
                      (updateStatusBar ''Error: Repo URL not set'' p1))
           else Inr (updateStatusBar ''Syncing...'' (p1\<lparr>isSyncing := True\<rparr>)))"

text \<open>\<^verbatim>\<open>initialStatus.files.some(...)\<close>.\<close>

definition hasLocalChanges :: "status_result \<Rightarrow> bool" where
  "hasLocalChanges st =
     list_ex (\<lambda>file. working_dir file \<noteq> '' '' \<or> (index file \<noteq> '' '' \<and> index file \<noteq> ''?''))
       (files st)"

text \<open>\<^verbatim>\<open>finalStatus.files.filter(...)\<close>.\<close>

definition filesToCommit :: "status_result \<Rightarrow> file_status list" where
  "filesToCommit st = filter (\<lambda>file. index file \<noteq> '' '' \<and> index file \<noteq> ''?'') (files st)"

text \<open>
  First status and stash. The result carries the local variable \<^verbatim>\<open>stashed\<close>. A
  rejected stash is caught on the spot: notice, status bar, the flag is cleared and
  the method returns.
\<close>

definition stash_step :: "git_env \<Rightarrow> plugin \<Rightarrow> bool exit \<times> plugin" where
  "stash_step env p =
     (case await status_call (initialStatus env) p of
        (Threw e, p1) \<Rightarrow> (Threw e, p1)
      | (Returned, p1) \<Rightarrow> (Returned, p1)
      | (Done st, p1) \<Rightarrow>
          if hasLocalChanges st then
            (case await (stash_call [''push'', ''-u'', ''-m'', ''GitSync_Autostash'']) (stashResult env) p1 of
               (Done s, p2) \<Rightarrow>
                 (Done (s \<noteq> [] \<and> \<not> str_includes (toLowerCase s) ''no local changes to save''), p2)
             | (_, p2) \<Rightarrow>
                 (Returned,
                  (updateStatusBar ''Stash Error''
                    (notice ''Git Sync: Failed to stash local changes. Sync aborted to prevent data loss.'' p2))
                  \<lparr>isSyncing := False\<rparr>))
          else (Done False, p1))"

text \<open>
  Second status, the branch checks and the rebase. The result carries
  \<^verbatim>\<open>currentBranch\<close>.
\<close>

definition rebase_step :: "git_env \<Rightarrow> plugin \<Rightarrow> string exit \<times> plugin" where
  "rebase_step env p =
     (case await status_call (statusAfterFetch env) p of
        (Threw e, p1) \<Rightarrow> (Threw e, p1)
      | (Returned, p1) \<Rightarrow> (Returned, p1)
      | (Done sf, p1) \<Rightarrow>
          (case current sf of
             None \<Rightarrow>
               (Threw (new_Error ''Git Sync: Not on a branch, cannot sync.''),
                notice ''Git Sync: Not on a branch. Please checkout a branch to sync.'' p1)
           | Some currentBranch \<Rightarrow>
               if currentBranch = [] then
                 (Threw (new_Error ''Git Sync: Not on a branch, cannot sync.''),
                  notice ''Git Sync: Not on a branch. Please checkout a branch to sync.'' p1)
               else
                 let p2 = (if \<not> truthy (tracking sf) \<and> behind sf > 0
                           then notice (''Git Sync: Branch '' @ quoted currentBranch @ '' is '' @
                                  show_int (behind sf) @
                                  '' commits behind, but not tracking a remote branch. Please set upstream. Rebase skipped.'')
                                  p1
                           else p1)
                 in
                 if truthy (tracking sf) \<and> behind sf > 0 then
                   (case await (rebase_call [the (tracking sf)]) (rebaseResult env) p2 of
                      (Done _, p3) \<Rightarrow> (Done currentBranch, p3)
                    | (Returned, p3) \<Rightarrow> (Returned, p3)
                    | (Threw rebaseError, p3) \<Rightarrow>
                        if message rebaseError \<noteq> [] \<and> str_includes (message rebaseError) ''CONFLICT''
                        then
                          let p4 = notice ''Git Sync: Merge conflict detected during rebase. Please resolve manually.'' p3
                          in (Threw (new_Error ''Merge conflict during rebase, operation aborted.''),
                              case await (rebase_call [''--abort'']) (abortResult env) p4 of
                                (Done _, p5) \<Rightarrow>
                                  notice ''Git Sync: Rebase aborted. Please resolve conflicts and sync manually.'' p5
                              | (_, p5) \<Rightarrow>
                                  notice ''Git Sync: Critical! Could not abort rebase. Manual Git intervention required.'' p5)
                        else
                          (Threw rebaseError,
                           notice ''Git Sync: Rebase failed. Check Git status or console for details.'' p3))
                 else if ahead sf > 0 \<and> \<not> truthy (tracking sf) then
                   (Done currentBranch,
                    notice (''Git Sync: Branch '' @ quoted currentBranch @ '' is '' @ show_int (ahead sf) @
                      '' commits ahead, but not tracking a remote branch. Commit will be local only unless upstream is set.'')
                      p2)
                 else (Done currentBranch, p2)))"

text \<open>\<^verbatim>\<open>if (stashed) { ... stash(["pop"]) ... }\<close>.\<close>

definition pop_step :: "git_env \<Rightarrow> bool \<Rightarrow> plugin \<Rightarrow> unit exit \<times> plugin" where
  "pop_step env stashed p =
     (if stashed then
        (case await (stash_call [''pop'']) (stashPopResult env) p of
           (Done _, p1) \<Rightarrow> (Done (), p1)
         | (Returned, p1) \<Rightarrow> (Returned, p1)
         | (Threw stashPopError, p1) \<Rightarrow>
             if message stashPopError \<noteq> [] \<and> str_includes (message stashPopError) ''conflict''
             then
               (Threw (new_Error ''Conflict applying stashed changes. Manual resolution needed.''),
                updateStatusBar ''Stash Conflict!''
                  (notice ''Git Sync: Conflict after sync when applying stashed changes. Please resolve conflicts in your Git client. Your stash is likely still available.'' p1))
             else
               (Threw stashPopError,
                notice ''Git Sync: Error applying stashed changes. Check Git status. Your stash may still be available.'' p1))
      else (Done (), p))"

text \<open>\<^verbatim>\<open>this.settings.lastSync = moment().format(...); await this.saveSettings()\<close>.\<close>

definition stamp_and_save :: "git_env \<Rightarrow> plugin \<Rightarrow> plugin" where
  "stamp_and_save env p = saveSettings (p\<lparr>settings := (settings p)\<lparr>lastSync := syncDate env\<rparr>\<rparr>)"

text \<open>Stage, third status, commit and push.\<close>

definition commit_step :: "git_env \<Rightarrow> string \<Rightarrow> plugin \<Rightarrow> unit exit \<times> plugin" where
  "commit_step env currentBranch p =
     (case await (add_call ''./*'') (addResult env) p of
        (Threw e, p1) \<Rightarrow> (Threw e, p1)
      | (Returned, p1) \<Rightarrow> (Returned, p1)
      | (Done _, p1) \<Rightarrow>
     (case await status_call (finalStatus env) p1 of
        (Threw e, p2) \<Rightarrow> (Threw e, p2)
      | (Returned, p2) \<Rightarrow> (Returned, p2)
      | (Done fs, p2) \<Rightarrow>
          if length (filesToCommit fs) > 0 then
            (case await (commit_call (str_replace (commitMessage (settings p2)) ''{{date}}'' (commitDate env)))
                    (commitResult env) p2 of
               (Threw e, p3) \<Rightarrow> (Threw e, p3)
             | (Returned, p3) \<Rightarrow> (Returned, p3)
             | (Done _, p3) \<Rightarrow>
                 if truthy (tracking fs) then
                   (case await push_call (pushResult env) p3 of
                      (Threw e, p4) \<Rightarrow> (Threw e, p4)
                    | (Returned, p4) \<Rightarrow> (Returned, p4)
                    | (Done _, p4) \<Rightarrow>
                        (Done (),
                         notice ''Git Sync: Vault successfully synced with remote.''
                           (updateStatusBar ''Synced'' (stamp_and_save env p4))))
                 else
                   (Done (),
                    updateStatusBar ''Committed (not pushed)''
                      (stamp_and_save env
                        (notice (''Git Sync: Changes committed locally. Push skipped as branch '' @
                                 quoted currentBranch @ '' is not tracking a remote.'') p3))))
          else
            (Done (),
             notice ''Git Sync: Vault is up-to-date. No local changes to commit.''
               (updateStatusBar ''Up-to-date'' (stamp_and_save env p2)))))"

text \<open>
  The \<^verbatim>\<open>try\<close> block: how it ends, the value of \<^verbatim>\<open>stashed\<close> at that point, and
  the plugin.
\<close>

definition sync_try :: "git_env \<Rightarrow> plugin \<Rightarrow> unit exit \<times> bool \<times> plugin" where
  "sync_try env p =
     (case stash_step env p of
        (Threw e, p1) \<Rightarrow> (Threw e, False, p1)
      | (Returned, p1) \<Rightarrow> (Returned, False, p1)
      | (Done stashed, p1) \<Rightarrow>
     (case await fetch_call (fetchResult env) p1 of
        (Threw e, p2) \<Rightarrow> (Threw e, stashed, p2)
      | (Returned, p2) \<Rightarrow> (Returned, stashed, p2)
      | (Done _, p2) \<Rightarrow>
     (case rebase_step env p2 of
        (Threw e, p3) \<Rightarrow> (Threw e, stashed, p3)
      | (Returned, p3) \<Rightarrow> (Returned, stashed, p3)
      | (Done currentBranch, p3) \<Rightarrow>
     (case pop_step env stashed p3 of
        (Threw e, p4) \<Rightarrow> (Threw e, stashed, p4)
      | (Returned, p4) \<Rightarrow> (Returned, stashed, p4)
      | (Done _, p4) \<Rightarrow>
     (case commit_step env currentBranch p4 of
        (x, p5) \<Rightarrow> (x, stashed, p5))))))"

text \<open>The \<^verbatim>\<open>catch\<close> block of the run.\<close>

definition sync_catch :: "js_error \<Rightarrow> bool \<Rightarrow> plugin \<Rightarrow> plugin" where
  "sync_catch error stashed p =
     handleSyncError error
       (if stashed \<and>
           \<not> (str_includes (message error) ''Conflict applying stashed changes'' \<or>
              str_includes (message error) ''Merge conflict during rebase'')
        then notice ''Git Sync: Sync failed. Local changes were stashed. You may need to `git stash pop` manually or check `git stash list`.'' p
        else p)"

text \<open>The \<^verbatim>\<open>finally\<close> block.\<close>

definition sync_finally :: "plugin \<Rightarrow> plugin" where
  "sync_finally p = p\<lparr>isSyncing := False\<rparr>"

text \<open>A run that has passed the guards: \<^verbatim>\<open>try\<close>, \<^verbatim>\<open>catch\<close>, \<^verbatim>\<open>finally\<close>.\<close>

definition sync_run :: "git_env \<Rightarrow> plugin \<Rightarrow> plugin" where
  "sync_run env p =
     (case sync_try env p of
        (Threw error, stashed, p1) \<Rightarrow> sync_finally (sync_catch error stashed p1)
      | (_, _, p1) \<Rightarrow> sync_finally p1)"

definition syncVault :: "git_env \<Rightarrow> plugin \<Rightarrow> plugin" where
  "syncVault env p = (case sync_guard env p of Inl p1 \<Rightarrow> p1 | Inr p1 \<Rightarrow> sync_run env p1)"

subsection \<open>\<^verbatim>\<open>startAutoSync\<close> and \<^verbatim>\<open>stopAutoSync\<close>\<close>

text \<open>
  \<^verbatim>\<open>window.setInterval\<close> returns a handle, a positive number chosen by the host
  (the argument \<open>h\<close>); a handle is truthy when it is not 0.
\<close>

definition timer_set :: "nat option \<Rightarrow> bool" where
  "timer_set t = (case t of None \<Rightarrow> False | Some h \<Rightarrow> h \<noteq> 0)"

definition startAutoSync :: "nat \<Rightarrow> plugin \<Rightarrow> plugin" where
  "startAutoSync h p =
     (if timer_set (syncInterval p) then p
      else if \<not> git p then p
      else let intervalMillis = commitInterval (settings p) * 60 * 1000 in
        if intervalMillis \<le> 0 then p
        else emit (SetInterval h intervalMillis) (p\<lparr>syncInterval := Some h\<rparr>))"

definition stopAutoSync :: "plugin \<Rightarrow> plugin" where
  "stopAutoSync p =
     (if timer_set (syncInterval p)
      then emit (ClearInterval (the (syncInterval p))) (p\<lparr>syncInterval := None\<rparr>)
      else p)"

subsection \<open>Example inputs\<close>

text \<open>A configured plugin at rest, a clean repository, and a client that succeeds.\<close>

definition settings0 :: settings where
  "settings0 =
     \<lparr>commitInterval = 15, repoUrl = ''git@example.com:me/vault.git'', authMethod = ssh,
      autoSync = True, lastSync = ''Never'', commitMessage = ''Vault auto-sync: {{date}}'',
      logMaxEntries = 50\<rparr>"

definition plugin0 :: plugin where
  "plugin0 =
     \<lparr>settings = settings0, git = True, isSyncing = False, syncInterval = None,
      persisted = settings0, events = []\<rparr>"

definition status0 :: status_result where
  "status0 =
     \<lparr>files = [], current = Some ''main'', tracking = Some ''origin/main'', ahead = 0, behind = 0\<rparr>"

definition env0 :: git_env where
  "env0 =
     \<lparr>initialStatus = Inr status0, stashResult = Inr ''Saved working directory'',
      fetchResult = Inr (), statusAfterFetch = Inr status0, rebaseResult = Inr (),
      abortResult = Inr (), stashPopResult = Inr (), addResult = Inr (),
      finalStatus = Inr status0, commitResult = Inr (), pushResult = Inr (),
      commitDate = ''2024-05-01 10:00:00'', syncDate = ''2024-05-01 10:00:02'',
      localFileSystem = True\<rparr>"

text \<open>A file modified in the working tree, and the same file once staged.\<close>

definition modified :: file_status where
  "modified = \<lparr>path = ''note.md'', index = '' '', working_dir = ''M''\<rparr>"

definition staged :: file_status where
  "staged = \<lparr>path = ''note.md'', index = ''M'', working_dir = '' ''\<rparr>"

text \<open>The plugin once the guards have passed.\<close>

definition started0 :: plugin where
  "started0 = plugin0\<lparr>isSyncing := True, events := [Status ''Git Sync: Syncing...'']\<rparr>"

text \<open>Local changes, two commits behind, and the rebase stops on a conflict.\<close>

definition env_rebase_conflict :: git_env where
  "env_rebase_conflict =
     env0\<lparr>initialStatus := Inr (status0\<lparr>files := [modified]\<rparr>),
          statusAfterFetch := Inr (status0\<lparr>behind := 2\<rparr>),
          rebaseResult := Inl (new_Error ''CONFLICT (content): Merge conflict in note.md'')\<rparr>"

text \<open>The second status reports no current branch.\<close>

definition env_no_branch :: git_env where
  "env_no_branch = env0\<lparr>statusAfterFetch := Inr (status0\<lparr>current := None, tracking := None\<rparr>)\<rparr>"

text \<open>Local changes, and the stash is rejected.\<close>

definition env_stash_fails :: git_env where
  "env_stash_fails =
     env0\<lparr>initialStatus := Inr (status0\<lparr>files := [modified]\<rparr>),
          stashResult := Inl (new_Error ''fatal: unable to write new index file'')\<rparr>"

text \<open>Local changes, and the stash answers that there was nothing to save.\<close>

definition env_stash_noop :: git_env where
  "env_stash_noop =
     env0\<lparr>initialStatus := Inr (status0\<lparr>files := [modified]\<rparr>),
          stashResult := Inr ''No local changes to save''\<rparr>"

text \<open>A staged file to commit on a branch without upstream.\<close>

definition env_no_upstream :: git_env where
  "env_no_upstream =
     env0\<lparr>statusAfterFetch := Inr (status0\<lparr>tracking := None\<rparr>),
          finalStatus := Inr (status0\<lparr>files := [staged], tracking := None\<rparr>)\<rparr>"

text \<open>The fetch cannot reach the remote.\<close>

definition env_fetch_fails :: git_env where
  "env_fetch_fails =
     env0\<lparr>fetchResult := Inl (new_Error ''fatal: Could not read from remote repository.'')\<rparr>"

subsection \<open>Reading a run\<close>

text \<open>
  From \<open>p\<close> to \<open>q\<close> events were only appended, and every git call among them is
  in \<open>A\<close>.
\<close>

definition step_calls :: "git_call set \<Rightarrow> plugin \<Rightarrow> plugin \<Rightarrow> bool" where
  "step_calls A p q \<longleftrightarrow> (\<exists>es. events q = events p @ es \<and> set (git_calls es) \<subseteq> A)"

text \<open>Both forms of the rebase call, onto a branch and \<^verbatim>\<open>--abort\<close>.\<close>

definition is_rebase :: "git_call \<Rightarrow> bool" where
  "is_rebase c = (case c of rebase_call _ \<Rightarrow> True | _ \<Rightarrow> False)"

text \<open>\<^verbatim>\<open>rebaseError.message && rebaseError.message.includes("CONFLICT")\<close>.\<close>

definition rebase_conflict :: "git_env \<Rightarrow> bool" where
  "rebase_conflict env =
     (case rebaseResult env of
        Inl rebaseError \<Rightarrow> message rebaseError \<noteq> [] \<and> str_includes (message rebaseError) ''CONFLICT''
      | Inr _ \<Rightarrow> False)"

text \<open>A notice that speaks of the stash.\<close>

definition mentions_stash :: "string \<Rightarrow> bool" where
  "mentions_stash m = str_includes (toLowerCase m) ''stash''"

text \<open>The arguments of the stash call of the first step.\<close>

abbreviation push_args :: "string list" where
  "push_args \<equiv> [''push'', ''-u'', ''-m'', ''GitSync_Autostash'']"

text \<open>The git calls of the first step: the status, and the stash when there are changes.\<close>

definition stash_calls :: "status_result \<Rightarrow> git_call list" where
  "stash_calls st =
     status_call # (if hasLocalChanges st then [stash_call push_args] else [])"

text \<open>The git calls a run can make before it stages.\<close>

abbreviation before_stage :: "git_call set" where
  "before_stage \<equiv>
     insert (stash_call [''pop'']) (insert fetch_call (insert (stash_call push_args)
       (insert status_call (Collect is_rebase))))"

text \<open>The calls that record or publish a commit.\<close>

definition publishes :: "git_call \<Rightarrow> bool" where
  "publishes c = (case c of commit_call _ \<Rightarrow> True | push_call \<Rightarrow> True | _ \<Rightarrow> False)"

section \<open>Basic facts\<close>

lemmas effect_defs = emit_def notice_def updateStatusBar_def saveSettings_def await_def
  stamp_and_save_def

lemma git_calls_simps [simp]:
  "git_calls [] = []"
  "git_calls (Git c # es) = c # git_calls es"
  "git_calls (Notice m # es) = git_calls es"
  "git_calls (Status t # es) = git_calls es"
  "git_calls (SaveData s # es) = git_calls es"
  "git_calls (SetInterval h i # es) = git_calls es"
  "git_calls (ClearInterval h # es) = git_calls es"
  "git_calls (es @ es') = git_calls es @ git_calls es'"
  by (simp_all add: git_calls_def)

lemma notices_simps [simp]:
  "notices [] = []"
  "notices (Git c # es) = notices es"
  "notices (Notice m # es) = m # notices es"
  "notices (Status t # es) = notices es"
  "notices (SaveData s # es) = notices es"
  "notices (SetInterval h i # es) = notices es"
  "notices (ClearInterval h # es) = notices es"
  "notices (es @ es') = notices es @ notices es'"
  by (simp_all add: notices_def)

lemma statuses_simps [simp]:
  "statuses [] = []"
  "statuses (Git c # es) = statuses es"
  "statuses (Notice m # es) = statuses es"
  "statuses (Status t # es) = t # statuses es"
  "statuses (SaveData s # es) = statuses es"
  "statuses (SetInterval h i # es) = statuses es"
  "statuses (ClearInterval h # es) = statuses es"
  "statuses (es @ es') = statuses es @ statuses es'"
  by (simp_all add: statuses_def)

lemma syncVault_run: "sync_guard env p = Inr q \<Longrightarrow> syncVault env p = sync_run env q"
  by (simp add: syncVault_def)

lemma emit_frame [simp]:
  "settings (emit e p) = settings p"
  "persisted (emit e p) = persisted p"
  "isSyncing (emit e p) = isSyncing p"
  "git (emit e p) = git p"
  "syncInterval (emit e p) = syncInterval p"
  by (simp_all add: emit_def)

lemma notice_frame [simp]:
  "settings (notice m p) = settings p"
  "persisted (notice m p) = persisted p"
  by (simp_all add: notice_def)

lemma updateStatusBar_frame [simp]:
  "settings (updateStatusBar t p) = settings p"
  "persisted (updateStatusBar t p) = persisted p"
  by (simp_all add: updateStatusBar_def)

text \<open>Only the rejected stash leaves the \<^verbatim>\<open>try\<close> block by \<^verbatim>\<open>return\<close>.\<close>

lemma rebase_step_not_Returned: "rebase_step env p \<noteq> (Returned, q)"
  by (auto simp: rebase_step_def effect_defs Let_def split: sum.splits if_splits option.splits)

lemma pop_step_not_Returned: "pop_step env st p \<noteq> (Returned, q)"
  by (auto simp: pop_step_def effect_defs split: sum.splits if_splits)

lemma commit_step_not_Returned: "commit_step env b p \<noteq> (Returned, q)"
  by (auto simp: commit_step_def effect_defs split: sum.splits if_splits)

text \<open>The six ways through the \<^verbatim>\<open>try\<close> block, by the step that ends it.\<close>

lemma sync_try_paths [consumes 1, case_names stash_threw stash_returned fetch rebase pop commit]:
  assumes "sync_try env p = (x, st, q)"
  obtains
    e where "stash_step env p = (Threw e, q)" "x = Threw e" "\<not> st"
  | "stash_step env p = (Returned, q)" "x = Returned" "\<not> st"
  | q1 e where "stash_step env p = (Done st, q1)" "fetchResult env = Inl e"
      "q = emit (Git fetch_call) q1" "x = Threw e"
  | q1 e where "stash_step env p = (Done st, q1)" "fetchResult env = Inr ()"
      "rebase_step env (emit (Git fetch_call) q1) = (Threw e, q)" "x = Threw e"
  | q1 b q3 e where "stash_step env p = (Done st, q1)" "fetchResult env = Inr ()"
      "rebase_step env (emit (Git fetch_call) q1) = (Done b, q3)"
      "pop_step env st q3 = (Threw e, q)" "x = Threw e"
  | q1 b q3 q4 where "stash_step env p = (Done st, q1)" "fetchResult env = Inr ()"
      "rebase_step env (emit (Git fetch_call) q1) = (Done b, q3)"
      "pop_step env st q3 = (Done (), q4)" "commit_step env b q4 = (x, q)"
  using assms
  by (auto simp: sync_try_def await_def rebase_step_not_Returned pop_step_not_Returned
      split: prod.splits exit.splits sum.splits)

text \<open>The guards on the example plugin.\<close>

lemma started0: "sync_guard env plugin0 = Inr started0"
  by (simp add: sync_guard_def plugin0_def started0_def settings0_def effect_defs)

lemma git_calls_map_Git [simp]: "git_calls (map Git cs) = cs"
  by (induction cs) simp_all

lemma notices_map_Git [simp]: "notices (map Git cs) = []"
  by (induction cs) simp_all

lemma statuses_map_Git [simp]: "statuses (map Git cs) = []"
  by (induction cs) simp_all

text \<open>Two runs of the example plugin, event by event.\<close>

lemmas run_defs = syncVault_def sync_guard_def sync_run_def sync_try_def stash_step_def
  rebase_step_def pop_step_def commit_step_def sync_catch_def sync_finally_def
  handleSyncError_def effect_defs new_events_def hasLocalChanges_def filesToCommit_def
  truthy_def Let_def

lemma run_env0:
  "new_events started0 (syncVault env0 plugin0) =
     [Git status_call, Git fetch_call, Git status_call, Git (add_call ''./*''), Git status_call,
      SaveData (settings0\<lparr>lastSync := ''2024-05-01 10:00:02''\<rparr>),
      Status ''Git Sync: Up-to-date'',
      Notice ''Git Sync: Vault is up-to-date. No local changes to commit.'']"
  by (simp add: run_defs plugin0_def started0_def settings0_def env0_def status0_def)

lemma run_env_no_upstream:
  "new_events started0 (syncVault env_no_upstream plugin0) =
     [Git status_call, Git fetch_call, Git status_call, Git (add_call ''./*''), Git status_call,
      Git (commit_call ''Vault auto-sync: 2024-05-01 10:00:00''),
      Notice (''Git Sync: Changes committed locally. Push skipped as branch '' @ quoted ''main'' @
              '' is not tracking a remote.''),
      SaveData (settings0\<lparr>lastSync := ''2024-05-01 10:00:02''\<rparr>),
      Status ''Git Sync: Committed (not pushed)'']"
  by (simp add: run_defs plugin0_def started0_def settings0_def env_no_upstream_def env0_def
      status0_def staged_def quoted_def)

section \<open>The mutual-exclusion flag\<close>

lemma handleSyncError_frame:
  "isSyncing (handleSyncError e p) = isSyncing p"
  "settings (handleSyncError e p) = settings p"
  "persisted (handleSyncError e p) = persisted p"
  by (simp_all add: handleSyncError_def effect_defs split: prod.splits option.splits)

lemma stash_step_flag:
  "stash_step env p = (x, q) \<Longrightarrow> isSyncing p \<Longrightarrow> isSyncing q = (x \<noteq> Returned)"
  by (auto simp: stash_step_def effect_defs split: sum.splits if_splits)

lemma rebase_step_flag: "rebase_step env p = (x, q) \<Longrightarrow> isSyncing q = isSyncing p"
  by (auto simp: rebase_step_def effect_defs Let_def split: sum.splits if_splits option.splits)

lemma pop_step_flag: "pop_step env st p = (x, q) \<Longrightarrow> isSyncing q = isSyncing p"
  by (auto simp: pop_step_def effect_defs split: sum.splits if_splits)

lemma commit_step_flag: "commit_step env b p = (x, q) \<Longrightarrow> isSyncing q = isSyncing p"
  by (auto simp: commit_step_def effect_defs split: sum.splits if_splits)

lemma sync_try_flag:
  assumes "sync_try env p = (x, st, q)" and "isSyncing p"
  shows "isSyncing q = (x \<noteq> Returned)"
  using assms(1)
proof (cases rule: sync_try_paths)
  case (stash_threw e)
  with stash_step_flag [OF stash_threw(1) assms(2)] show ?thesis by simp
next
  case stash_returned
  with stash_step_flag [OF stash_returned(1) assms(2)] show ?thesis by simp
next
  case (fetch q1 e)
  with stash_step_flag [OF fetch(1) assms(2)] show ?thesis by (simp add: emit_def)
next
  case (rebase q1 e)
  with stash_step_flag [OF rebase(1) assms(2)] rebase_step_flag [OF rebase(3)]
  show ?thesis by (simp add: emit_def)
next
  case (pop q1 b q3 e)
  with stash_step_flag [OF pop(1) assms(2)] rebase_step_flag [OF pop(3)]
    pop_step_flag [OF pop(4)]
  show ?thesis by (simp add: emit_def)
next
  case (commit q1 b q3 q4)
  with stash_step_flag [OF commit(1) assms(2)] rebase_step_flag [OF commit(3)]
    pop_step_flag [OF commit(4)] commit_step_flag [OF commit(5)]
    commit_step_not_Returned [of env b q4 q]
  show ?thesis by (auto simp: emit_def)
qed

lemma sync_run_flag: "\<not> isSyncing (sync_run env p)"
  by (simp add: sync_run_def sync_finally_def split: prod.splits exit.splits)

lemma sync_guard_Inl_flag: "sync_guard env p = Inl q \<Longrightarrow> isSyncing q = isSyncing p"
  by (auto simp: sync_guard_def initializeGit_def effect_defs Let_def split: if_splits)

lemma sync_guard_Inr_flag: "sync_guard env p = Inr q \<Longrightarrow> isSyncing q \<and> \<not> isSyncing p"
  by (auto simp: sync_guard_def initializeGit_def effect_defs Let_def split: if_splits)

text \<open>
  An invocation made while a run is in progress only shows a notice; the flag stays
  with the run that owns it.
\<close>

lemma syncVault_while_syncing:
  "isSyncing p \<Longrightarrow> syncVault env p = notice ''Git Sync: Sync already in progress.'' p"
  by (simp add: syncVault_def sync_guard_def)

text \<open>
  Claim C1. Started with the flag \<^verbatim>\<open>isSyncing\<close> false, every invocation of
  \<^verbatim>\<open>syncVault\<close> ends with the flag false, whatever the git client answers: on the
  exits at the guards, on success, on the return after a rejected stash and on every
  exception. When the guards pass, the run starts with the flag true, and the flag is
  still true where the \<^verbatim>\<open>try\<close> block ends, except on the return after a rejected
  stash, which has cleared it already.
\<close>

theorem isSyncing_only_during_run:
  "\<not> isSyncing p \<Longrightarrow>
     \<not> isSyncing (syncVault env p) \<and>
     (\<forall>q. sync_guard env p = Inr q \<longrightarrow>
        isSyncing q \<and>
        isSyncing (snd (snd (sync_try env q))) = (fst (sync_try env q) \<noteq> Returned))"
proof (intro conjI allI impI)
  assume "\<not> isSyncing p"
  then show "\<not> isSyncing (syncVault env p)"
    by (cases "sync_guard env p") (simp_all add: syncVault_def sync_run_flag sync_guard_Inl_flag)
next
  fix q assume "sync_guard env p = Inr q"
  then show "isSyncing q" by (simp add: sync_guard_Inr_flag)
next
  fix q assume g: "sync_guard env p = Inr q"
  then have "isSyncing q" by (simp add: sync_guard_Inr_flag)
  then show "isSyncing (snd (snd (sync_try env q))) = (fst (sync_try env q) \<noteq> Returned)"
    using sync_try_flag [of env q "fst (sync_try env q)" "fst (snd (sync_try env q))"
        "snd (snd (sync_try env q))"]
    by simp
qed

text \<open>The run whose fetch is rejected: the flag is true at the throw, false at the end.\<close>

theorem isSyncing_only_during_run_witness:
  "\<not> isSyncing plugin0 \<and>
   \<not> isSyncing (syncVault env_fetch_fails plugin0) \<and>
   sync_guard env_fetch_fails plugin0 = Inr started0 \<and>
   isSyncing started0 \<and>
   fst (sync_try env_fetch_fails started0) =
     Threw (new_Error ''fatal: Could not read from remote repository.'') \<and>
   isSyncing (snd (snd (sync_try env_fetch_fails started0)))"
proof -
  have h: "\<not> isSyncing plugin0"
    by (simp add: plugin0_def)
  have t: "fst (sync_try env_fetch_fails started0) =
             Threw (new_Error ''fatal: Could not read from remote repository.'')"
    by (simp add: sync_try_def stash_step_def await_def env_fetch_fails_def env0_def
        hasLocalChanges_def status0_def)
  from isSyncing_only_during_run [OF h, of env_fetch_fails] started0 [of env_fetch_fails] h t
  show ?thesis by simp
qed

section \<open>The error classifier\<close>

lemma classify_rebase_conflict_error:
  "classify (new_Error ''Merge conflict during rebase, operation aborted.'') =
     (''Git Sync: A conflict occurred. Please resolve it manually in your Git client.'',
      Some ''Conflict!'')"
  by (simp add: classify_def new_Error_def error_text_def)

lemma classify_stash_conflict_error:
  "classify (new_Error ''Conflict applying stashed changes. Manual resolution needed.'') =
     (''Git Sync: Stash conflict. Manual resolution needed. Stash may still be present.'',
      Some ''Stash Conflict!'')"
  by (simp add: classify_def new_Error_def error_text_def)

lemma classify_no_branch_error:
  "classify (new_Error ''Git Sync: Not on a branch, cannot sync.'') =
     (''Git Sync: Error - Git Sync: Not on a branch, cannot sync....'', Some ''Sync Error'')"
  by (simp add: classify_def new_Error_def error_text_def)

text \<open>The first test that holds decides: a conflict marker wins over every later test.\<close>

lemma classify_conflict_first:
  "str_includes (error_text e) ''CONFLICT'' \<or> str_includes (error_text e) ''conflict'' \<Longrightarrow>
   classify e =
     (''Git Sync: A conflict occurred. Please resolve it manually in your Git client.'',
      Some ''Conflict!'')"
  by (auto simp: classify_def Let_def)

lemma str_includes_sublist: "str_includes s t \<longleftrightarrow> sublist t s"
  by (induction s) (auto simp: sublist_Cons_right)

lemma rebase_message_has_conflict:
  assumes "str_includes m ''Merge conflict during rebase, operation aborted''"
  shows "str_includes m ''conflict''"
proof -
  have "str_includes ''Merge conflict during rebase, operation aborted'' ''conflict''"
    by simp
  with assms show ?thesis
    unfolding str_includes_sublist by (rule sublist_order.order_trans [rotated])
qed

text \<open>No error at all reaches the fifth test of the chain, the rebase-conflict report.\<close>

lemma rebase_conflict_branch_unreachable: "snd (classify e) \<noteq> Some ''Rebase Conflict!''"
  by (auto simp: classify_def Let_def dest: rebase_message_has_conflict)

text \<open>
  Claim C3. The chain of \<^verbatim>\<open>handleSyncError\<close> is tried in order and the first test
  that holds decides. The error the rebase step throws on a conflict,
  \<^verbatim>\<open>Merge conflict during rebase, operation aborted.\<close>, contains \<^verbatim>\<open>conflict\<close>, so
  the first test takes it: it gets the general conflict report, not the rebase-conflict
  report of the fifth test. The error the stash-pop step throws on a conflict passes
  the first test (its \<^verbatim>\<open>Conflict\<close> is capitalised) and gets the stash-conflict
  report.
\<close>

theorem rebase_conflict_report_shadowed:
  "classify (new_Error ''Merge conflict during rebase, operation aborted.'') =
     (''Git Sync: A conflict occurred. Please resolve it manually in your Git client.'',
      Some ''Conflict!'') \<and>
   classify (new_Error ''Conflict applying stashed changes. Manual resolution needed.'') =
     (''Git Sync: Stash conflict. Manual resolution needed. Stash may still be present.'',
      Some ''Stash Conflict!'')"
  by (simp add: classify_def new_Error_def error_text_def)

section \<open>A rejected stash\<close>

text \<open>
  Claim C5. In a run where the first status shows local changes and the stash is
  rejected, the run makes the status call and the stash call, shows the notice
  \<^verbatim>\<open>Failed to stash local changes. Sync aborted to prevent data loss.\<close>, sets the
  status bar to \<^verbatim>\<open>Stash Error\<close>, and does nothing more: no fetch, rebase, stash
  pop, stage, commit or push. The flag is cleared, the \<^verbatim>\<open>try\<close> block ends by
  \<^verbatim>\<open>return\<close> with \<^verbatim>\<open>stashed\<close> false, and the settings are untouched.
\<close>

theorem stash_failure_aborts:
  assumes "sync_guard env p = Inr q"
    and "initialStatus env = Inr st" and "hasLocalChanges st"
    and "stashResult env = Inl e"
  shows "new_events q (syncVault env p) =
           [Git status_call,
            Git (stash_call [''push'', ''-u'', ''-m'', ''GitSync_Autostash'']),
            Notice ''Git Sync: Failed to stash local changes. Sync aborted to prevent data loss.'',
            Status ''Git Sync: Stash Error''] \<and>
         \<not> isSyncing (syncVault env p) \<and>
         fst (sync_try env q) = Returned \<and>
         \<not> fst (snd (sync_try env q)) \<and>
         settings (syncVault env p) = settings q \<and>
         persisted (syncVault env p) = persisted q"
  using assms
  by (simp add: syncVault_run sync_run_def sync_try_def stash_step_def sync_finally_def
      effect_defs new_events_def)

theorem stash_failure_aborts_witness:
  "sync_guard env_stash_fails plugin0 = Inr started0 \<and>
   initialStatus env_stash_fails = Inr (status0\<lparr>files := [modified]\<rparr>) \<and>
   hasLocalChanges (status0\<lparr>files := [modified]\<rparr>) \<and>
   stashResult env_stash_fails = Inl (new_Error ''fatal: unable to write new index file'') \<and>
   new_events started0 (syncVault env_stash_fails plugin0) =
           [Git status_call,
            Git (stash_call [''push'', ''-u'', ''-m'', ''GitSync_Autostash'']),
            Notice ''Git Sync: Failed to stash local changes. Sync aborted to prevent data loss.'',
            Status ''Git Sync: Stash Error''] \<and>
   \<not> isSyncing (syncVault env_stash_fails plugin0) \<and>
   fst (sync_try env_stash_fails started0) = Returned \<and>
   \<not> fst (snd (sync_try env_stash_fails started0))"
proof -
  have g: "sync_guard env_stash_fails plugin0 = Inr started0"
    by (rule started0)
  have i: "initialStatus env_stash_fails = Inr (status0\<lparr>files := [modified]\<rparr>)"
    by (simp add: env_stash_fails_def env0_def)
  have h: "hasLocalChanges (status0\<lparr>files := [modified]\<rparr>)"
    by (simp add: hasLocalChanges_def status0_def modified_def)
  have s: "stashResult env_stash_fails = Inl (new_Error ''fatal: unable to write new index file'')"
    by (simp add: env_stash_fails_def env0_def)
  from stash_failure_aborts [OF g i h s] g i h s show ?thesis by simp
qed

section \<open>The timer\<close>

lemma startAutoSync_installs:
  "\<not> timer_set (syncInterval p) \<Longrightarrow> git p \<Longrightarrow> 0 < commitInterval (settings p) \<Longrightarrow>
   startAutoSync h p =
     emit (SetInterval h (commitInterval (settings p) * 60 * 1000)) (p\<lparr>syncInterval := Some h\<rparr>)"
  by (simp add: startAutoSync_def Let_def)

lemma stopAutoSync_clears:
  "syncInterval p = Some h \<Longrightarrow> h \<noteq> 0 \<Longrightarrow>
   stopAutoSync p = emit (ClearInterval h) (p\<lparr>syncInterval := None\<rparr>)"
  by (simp add: stopAutoSync_def timer_set_def)

text \<open>
  Claim C10. In every state of the plugin: \<^verbatim>\<open>startAutoSync\<close> with a configured
  interval of zero or fewer minutes changes nothing (no timer is set, no handle is
  stored); \<^verbatim>\<open>startAutoSync\<close> while a timer handle is stored changes nothing (the
  handle stays, no timer is set or cleared, whatever interval is now configured);
  \<^verbatim>\<open>stopAutoSync\<close> while no timer handle is stored changes nothing.
\<close>

theorem autosync_start_stop_idempotent:
  "(commitInterval (settings p) \<le> 0 \<longrightarrow> startAutoSync h p = p) \<and>
   (timer_set (syncInterval p) \<longrightarrow> startAutoSync h p = p) \<and>
   (\<not> timer_set (syncInterval p) \<longrightarrow> stopAutoSync p = p)"
  by (simp add: startAutoSync_def stopAutoSync_def Let_def)

text \<open>
  Interval \<open>-5\<close>: nothing happens. Interval 15: a timer of 900000 ms is set; a second
  start with the interval changed to 30 leaves it. Stop on the plugin at rest: nothing
  happens.
\<close>

theorem autosync_start_stop_idempotent_witness:
  "commitInterval (settings (plugin0\<lparr>settings := settings0\<lparr>commitInterval := - 5\<rparr>\<rparr>)) \<le> 0 \<and>
   startAutoSync 1 (plugin0\<lparr>settings := settings0\<lparr>commitInterval := - 5\<rparr>\<rparr>) =
     plugin0\<lparr>settings := settings0\<lparr>commitInterval := - 5\<rparr>\<rparr> \<and>
   startAutoSync 1 plugin0 =
     plugin0\<lparr>syncInterval := Some 1, events := [SetInterval 1 900000]\<rparr> \<and>
   timer_set (syncInterval ((startAutoSync 1 plugin0)\<lparr>settings := settings0\<lparr>commitInterval := 30\<rparr>\<rparr>)) \<and>
   startAutoSync 2 ((startAutoSync 1 plugin0)\<lparr>settings := settings0\<lparr>commitInterval := 30\<rparr>\<rparr>) =
     (startAutoSync 1 plugin0)\<lparr>settings := settings0\<lparr>commitInterval := 30\<rparr>\<rparr> \<and>
   \<not> timer_set (syncInterval plugin0) \<and>
   stopAutoSync plugin0 = plugin0"
proof -
  have a: "commitInterval (settings (plugin0\<lparr>settings := settings0\<lparr>commitInterval := - 5\<rparr>\<rparr>)) \<le> 0"
    by simp
  have b: "startAutoSync 1 plugin0 = plugin0\<lparr>syncInterval := Some 1, events := [SetInterval 1 900000]\<rparr>"
    by (simp add: startAutoSync_def timer_set_def plugin0_def settings0_def emit_def)
  have c: "timer_set (syncInterval ((startAutoSync 1 plugin0)\<lparr>settings := settings0\<lparr>commitInterval := 30\<rparr>\<rparr>))"
    using b by (simp add: timer_set_def)
  have d: "\<not> timer_set (syncInterval plugin0)"
    by (simp add: plugin0_def timer_set_def)
  from a b c d
    autosync_start_stop_idempotent [of "plugin0\<lparr>settings := settings0\<lparr>commitInterval := - 5\<rparr>\<rparr>" 1]
    autosync_start_stop_idempotent [of "(startAutoSync 1 plugin0)\<lparr>settings := settings0\<lparr>commitInterval := 30\<rparr>\<rparr>" 2]
    autosync_start_stop_idempotent [of plugin0 0]
  show ?thesis by blast
qed

section \<open>Events and settings of the steps\<close>

text \<open>The events of a run only grow, and each step makes only its own git calls.\<close>

lemma step_calls_refl [simp]: "step_calls A p p"
  by (simp add: step_calls_def)

lemma step_calls_trans:
  "step_calls A p q \<Longrightarrow> step_calls B q r \<Longrightarrow> step_calls (A \<union> B) p r"
  by (auto simp: step_calls_def)

lemma step_calls_mono: "step_calls A p q \<Longrightarrow> A \<subseteq> B \<Longrightarrow> step_calls B p q"
  by (auto simp: step_calls_def)

lemma step_calls_emit_Git [simp]:
  "step_calls A p q \<Longrightarrow> c \<in> A \<Longrightarrow> step_calls A p (emit (Git c) q)"
  by (auto simp: step_calls_def emit_def)

lemma step_calls_notice [simp]: "step_calls A p q \<Longrightarrow> step_calls A p (notice m q)"
  by (auto simp: step_calls_def effect_defs)

lemma step_calls_updateStatusBar [simp]:
  "step_calls A p q \<Longrightarrow> step_calls A p (updateStatusBar t q)"
  by (auto simp: step_calls_def effect_defs)

lemma step_calls_stamp_and_save [simp]:
  "step_calls A p q \<Longrightarrow> step_calls A p (stamp_and_save env q)"
  by (auto simp: step_calls_def effect_defs)

lemma step_calls_isSyncing [simp]:
  "step_calls A p (q\<lparr>isSyncing := b\<rparr>) = step_calls A p q"
  by (simp add: step_calls_def)

lemma step_calls_handleSyncError [simp]:
  "step_calls A p q \<Longrightarrow> step_calls A p (handleSyncError e q)"
  by (simp add: handleSyncError_def split: prod.splits option.splits)

lemma step_calls_sync_catch [simp]:
  "step_calls A p q \<Longrightarrow> step_calls A p (sync_catch e st q)"
  by (simp add: sync_catch_def)

lemma step_callsD:
  "step_calls A p q \<Longrightarrow> c \<in> set (git_calls (new_events p q)) \<Longrightarrow> c \<in> A"
  by (auto simp: step_calls_def new_events_def)

lemma step_calls_new_events:
  "step_calls A p q \<Longrightarrow> step_calls B q r \<Longrightarrow>
   new_events p r = new_events p q @ new_events q r"
  by (auto simp: step_calls_def new_events_def)

lemma stash_step_calls:
  "stash_step env p = (x, q) \<Longrightarrow> step_calls {status_call, stash_call push_args} p q"
  by (auto simp: stash_step_def await_def split: sum.splits if_splits)

lemma rebase_step_calls:
  "rebase_step env p = (x, q) \<Longrightarrow> step_calls (insert status_call (Collect is_rebase)) p q"
  by (auto simp: rebase_step_def await_def Let_def is_rebase_def
      split: sum.splits if_splits option.splits)

lemma pop_step_calls:
  "pop_step env st p = (x, q) \<Longrightarrow> step_calls {stash_call [''pop'']} p q"
  by (auto simp: pop_step_def await_def split: sum.splits if_splits)

lemma pop_step_not_stashed [simp]: "pop_step env False p = (Done (), p)"
  by (simp add: pop_step_def)

lemma commit_step_calls:
  "commit_step env b p = (x, q) \<Longrightarrow>
   step_calls {add_call ''./*'', status_call,
     commit_call (str_replace (commitMessage (settings p)) ''{{date}}'' (commitDate env)),
     push_call} p q"
  by (auto simp: commit_step_def await_def split: sum.splits if_splits)


text \<open>No step before the commit step touches the settings or what is saved.\<close>

lemma stash_step_frame:
  "stash_step env p = (x, q) \<Longrightarrow> settings q = settings p \<and> persisted q = persisted p"
  by (auto simp: stash_step_def await_def split: sum.splits if_splits)

lemma rebase_step_frame:
  "rebase_step env p = (x, q) \<Longrightarrow> settings q = settings p \<and> persisted q = persisted p"
  by (auto simp: rebase_step_def await_def Let_def split: sum.splits if_splits option.splits)

lemma pop_step_frame:
  "pop_step env st p = (x, q) \<Longrightarrow> settings q = settings p \<and> persisted q = persisted p"
  by (auto simp: pop_step_def await_def split: sum.splits if_splits)

lemma commit_step_frame:
  "commit_step env b p = (x, q) \<Longrightarrow> x \<noteq> Done () \<Longrightarrow>
   settings q = settings p \<and> persisted q = persisted p"
  by (auto simp: commit_step_def await_def split: sum.splits if_splits)

lemma sync_catch_frame [simp]:
  "settings (sync_catch e st p) = settings p"
  "persisted (sync_catch e st p) = persisted p"
  by (simp_all add: sync_catch_def handleSyncError_frame)

lemma sync_finally_frame [simp]:
  "settings (sync_finally p) = settings p"
  "persisted (sync_finally p) = persisted p"
  "events (sync_finally p) = events p"
  by (simp_all add: sync_finally_def)

lemma sync_guard_frame:
  "sync_guard env p = Inr q \<Longrightarrow> settings q = settings p \<and> persisted q = persisted p"
  by (auto simp: sync_guard_def initializeGit_def Let_def split: if_splits)

lemma sync_run_unfold:
  "sync_try env p = (x, st, q) \<Longrightarrow>
   sync_run env p = sync_finally (case x of Threw e \<Rightarrow> sync_catch e st q | _ \<Rightarrow> q)"
  by (simp add: sync_run_def split: exit.splits)

lemma sync_try_frame:
  assumes "sync_try env p = (x, st, q)" and "x \<noteq> Done ()"
  shows "settings q = settings p \<and> persisted q = persisted p"
  using assms(1)
proof (cases rule: sync_try_paths)
  case (stash_threw e)
  then show ?thesis by (simp add: stash_step_frame)
next
  case stash_returned
  then show ?thesis by (simp add: stash_step_frame)
next
  case (fetch q1 e)
  then show ?thesis by (simp add: stash_step_frame)
next
  case (rebase q1 e)
  with stash_step_frame [OF rebase(1)] rebase_step_frame [OF rebase(3)]
  show ?thesis by simp
next
  case (pop q1 b q3 e)
  with stash_step_frame [OF pop(1)] rebase_step_frame [OF pop(3)] pop_step_frame [OF pop(4)]
  show ?thesis by simp
next
  case (commit q1 b q3 q4)
  with stash_step_frame [OF commit(1)] rebase_step_frame [OF commit(3)]
    pop_step_frame [OF commit(4)] commit_step_frame [OF commit(5) assms(2)]
  show ?thesis by simp
qed

section \<open>A stash that saved nothing\<close>

lemma sync_try_calls:
  assumes "sync_try env p = (x, st, q)"
  shows "step_calls (if st then UNIV else UNIV - {stash_call [''pop'']}) p q"
  using assms
proof (cases rule: sync_try_paths)
  case (stash_threw e)
  from stash_step_calls [OF stash_threw(1)] show ?thesis
    by (rule step_calls_mono) auto
next
  case stash_returned
  from stash_step_calls [OF stash_returned(1)] show ?thesis
    by (rule step_calls_mono) auto
next
  case (fetch q1 e)
  from stash_step_calls [OF fetch(1)]
  have "step_calls (if st then UNIV else UNIV - {stash_call [''pop'']}) p q1"
    by (rule step_calls_mono) auto
  with fetch show ?thesis by simp
next
  case (rebase q1 e)
  from stash_step_calls [OF rebase(1)]
  have "step_calls {status_call, stash_call push_args, fetch_call} p (emit (Git fetch_call) q1)"
    by (simp add: step_calls_mono)
  from step_calls_trans [OF this rebase_step_calls [OF rebase(3)]]
  show ?thesis
    by (rule step_calls_mono) (auto simp: is_rebase_def split: git_call.splits)
next
  case (pop q1 b q3 e)
  from stash_step_calls [OF pop(1)]
  have "step_calls {status_call, stash_call push_args, fetch_call} p (emit (Git fetch_call) q1)"
    by (simp add: step_calls_mono)
  from step_calls_trans [OF this rebase_step_calls [OF pop(3)]]
  have "step_calls (UNIV - {stash_call [''pop'']}) p q3"
    by (rule step_calls_mono) (auto simp: is_rebase_def split: git_call.splits)
  from step_calls_trans [OF this pop_step_calls [OF pop(4)]] pop
  show ?thesis
    by (cases st) (auto elim: step_calls_mono)
next
  case (commit q1 b q3 q4)
  from stash_step_calls [OF commit(1)]
  have "step_calls {status_call, stash_call push_args, fetch_call} p (emit (Git fetch_call) q1)"
    by (simp add: step_calls_mono)
  from step_calls_trans [OF this rebase_step_calls [OF commit(3)]]
  have 3: "step_calls (UNIV - {stash_call [''pop'']}) p q3"
    by (rule step_calls_mono) (auto simp: is_rebase_def split: git_call.splits)
  from commit_step_calls [OF commit(5)]
  have 5: "step_calls (UNIV - {stash_call [''pop'']}) q4 q"
    by (rule step_calls_mono) auto
  show ?thesis
  proof (cases st)
    case True
    from step_calls_trans [OF step_calls_trans [OF 3 pop_step_calls [OF commit(4)]] 5]
    show ?thesis using True by (auto elim: step_calls_mono)
  next
    case False
    with commit(4) have "q4 = q3" by simp
    with 5 have "step_calls (UNIV - {stash_call [''pop'']}) q3 q" by simp
    from step_calls_trans [OF 3 this] False show ?thesis by simp
  qed
qed

lemma sync_run_calls:
  "sync_try env p = (x, st, q) \<Longrightarrow> step_calls A p q \<Longrightarrow> step_calls A p (sync_run env p)"
  by (simp add: sync_run_unfold sync_finally_def split: exit.splits)

text \<open>
  Claim C6. In every run where the first status shows local changes and the stash
  call answers with an empty text or a text containing \<^verbatim>\<open>no local changes to save\<close>
  (in any letter case), \<^verbatim>\<open>stashed\<close> is false and the run makes no
  \<^verbatim>\<open>stash pop\<close> call, whatever the later calls answer.
\<close>

theorem noop_stash_never_popped:
  assumes "sync_guard env p = Inr q"
    and "initialStatus env = Inr st" and "hasLocalChanges st"
    and "stashResult env = Inr s"
    and "s = [] \<or> str_includes (toLowerCase s) ''no local changes to save''"
  shows "\<not> fst (snd (sync_try env q)) \<and>
         stash_call [''pop''] \<notin> set (git_calls (new_events q (syncVault env p)))"
proof -
  obtain x stashed q' where t: "sync_try env q = (x, stashed, q')"
    by (cases "sync_try env q") auto
  from assms(2-5) have "stash_step env q =
      (Done False, emit (Git (stash_call push_args)) (emit (Git status_call) q))"
    by (auto simp: stash_step_def await_def)
  with t have ns: "\<not> stashed"
    by (cases rule: sync_try_paths) auto
  from sync_run_calls [OF t sync_try_calls [OF t]] ns
  have "step_calls (UNIV - {stash_call [''pop'']}) q (sync_run env q)" by simp
  from step_callsD [OF this] t ns show ?thesis
    by (auto simp: syncVault_run [OF assms(1)])
qed

text \<open>The stash answers \<^verbatim>\<open>No local changes to save\<close>.\<close>

theorem noop_stash_never_popped_witness:
  "sync_guard env_stash_noop plugin0 = Inr started0 \<and>
   initialStatus env_stash_noop = Inr (status0\<lparr>files := [modified]\<rparr>) \<and>
   hasLocalChanges (status0\<lparr>files := [modified]\<rparr>) \<and>
   stashResult env_stash_noop = Inr ''No local changes to save'' \<and>
   str_includes (toLowerCase ''No local changes to save'') ''no local changes to save'' \<and>
   \<not> fst (snd (sync_try env_stash_noop started0)) \<and>
   stash_call [''pop''] \<notin> set (git_calls (new_events started0 (syncVault env_stash_noop plugin0)))"
proof -
  have g: "sync_guard env_stash_noop plugin0 = Inr started0"
    by (rule started0)
  have i: "initialStatus env_stash_noop = Inr (status0\<lparr>files := [modified]\<rparr>)"
    by (simp add: env_stash_noop_def env0_def)
  have h: "hasLocalChanges (status0\<lparr>files := [modified]\<rparr>)"
    by (simp add: hasLocalChanges_def status0_def modified_def)
  have s: "stashResult env_stash_noop = Inr ''No local changes to save''"
    by (simp add: env_stash_noop_def env0_def)
  have l: "str_includes (toLowerCase ''No local changes to save'') ''no local changes to save''"
    by (simp add: toLowerCase_def lower_char_def)
  have d: "''No local changes to save'' = [] \<or>
           str_includes (toLowerCase ''No local changes to save'') ''no local changes to save''"
    using l by simp
  from noop_stash_never_popped [OF g i h s d] g i h s l show ?thesis by simp
qed

section \<open>No current branch\<close>

lemma new_events_append [simp]: "events q = events p @ es \<Longrightarrow> new_events p q = es"
  by (simp add: new_events_def)

lemma stash_step_Done:
  assumes "initialStatus env = Inr st" and "\<not> hasLocalChanges st \<or> stashResult env = Inr s"
  shows "\<exists>stashed q. stash_step env p = (Done stashed, q) \<and>
           events q = events p @ map Git (stash_calls st) \<and>
           settings q = settings p \<and> persisted q = persisted p"
  using assms by (auto simp: stash_step_def await_def stash_calls_def emit_def)

text \<open>
  Claim C4, as the code has it. In every run where the first status and, when there
  are local changes, the stash succeed, the fetch succeeds, and the second status
  reports no current branch (\<^verbatim>\<open>null\<close> or empty), the run stops there: its git
  calls are those of the first step, the fetch and the second status, so no rebase,
  stash pop, stage, commit or push is made. It shows the notice
  \<^verbatim>\<open>Not on a branch. Please checkout a branch to sync.\<close> and throws; the
  top-level handler adds the stash warning when \<^verbatim>\<open>stashed\<close> is true, and
  \<^verbatim>\<open>handleSyncError\<close> reports the error by its last branch, the general one:
  status bar \<^verbatim>\<open>Sync Error\<close>, notice \<^verbatim>\<open>Error - \<close> followed by the message.
  Nothing is saved and the flag is cleared.
\<close>

theorem no_branch_aborts_as_generic_error:
  assumes "sync_guard env p = Inr q"
    and "initialStatus env = Inr st"
    and "\<not> hasLocalChanges st \<or> stashResult env = Inr s"
    and "fetchResult env = Inr ()"
    and "statusAfterFetch env = Inr sf"
    and "\<not> truthy (current sf)"
  shows "git_calls (new_events q (syncVault env p)) = stash_calls st @ [fetch_call, status_call] \<and>
         fst (sync_try env q) = Threw (new_Error ''Git Sync: Not on a branch, cannot sync.'') \<and>
         notices (new_events q (syncVault env p)) =
           ''Git Sync: Not on a branch. Please checkout a branch to sync.'' #
           (if fst (snd (sync_try env q))
            then [''Git Sync: Sync failed. Local changes were stashed. You may need to `git stash pop` manually or check `git stash list`.'']
            else []) @
           [''Git Sync: Error - Git Sync: Not on a branch, cannot sync....''] \<and>
         statuses (new_events q (syncVault env p)) = [''Git Sync: Sync Error''] \<and>
         persisted (syncVault env p) = persisted p \<and>
         \<not> isSyncing (syncVault env p)"
proof -
  from stash_step_Done [OF assms(2,3)] obtain stashed q1 where
    s: "stash_step env q = (Done stashed, q1)"
    and e: "events q1 = events q @ map Git (stash_calls st)"
    and f: "persisted q1 = persisted q"
    by blast
  let ?err = "new_Error ''Git Sync: Not on a branch, cannot sync.''"
  let ?q3 = "notice ''Git Sync: Not on a branch. Please checkout a branch to sync.''
               (emit (Git status_call) (emit (Git fetch_call) q1))"
  from assms(5,6) have r: "rebase_step env (emit (Git fetch_call) q1) = (Threw ?err, ?q3)"
    by (auto simp: rebase_step_def await_def truthy_def split: option.splits)
  from s r assms(4) have t: "sync_try env q = (Threw ?err, stashed, ?q3)"
    by (simp add: sync_try_def await_def)
  have m: "message ?err = ''Git Sync: Not on a branch, cannot sync.''"
    by (simp add: new_Error_def)
  have c: "\<not> str_includes ''Git Sync: Not on a branch, cannot sync.'' ''Conflict applying stashed changes''"
    "\<not> str_includes ''Git Sync: Not on a branch, cannot sync.'' ''Merge conflict during rebase''"
    by simp_all
  have sv: "syncVault env p = sync_finally (sync_catch ?err stashed ?q3)"
    by (simp add: syncVault_run [OF assms(1)] sync_run_unfold [OF t])
  have ev: "events (syncVault env p) =
      events q @ (map Git (stash_calls st) @
      [Git fetch_call, Git status_call,
       Notice ''Git Sync: Not on a branch. Please checkout a branch to sync.''] @
      (if stashed
       then [Notice ''Git Sync: Sync failed. Local changes were stashed. You may need to `git stash pop` manually or check `git stash list`.'']
       else []) @
      [Status ''Git Sync: Sync Error'',
       Notice ''Git Sync: Error - Git Sync: Not on a branch, cannot sync....''])"
    by (simp add: sv sync_catch_def m c handleSyncError_def classify_no_branch_error
        effect_defs e)
  note ne = new_events_append [OF ev]
  have fl: "\<not> isSyncing (syncVault env p)"
    by (simp add: syncVault_run [OF assms(1)] sync_run_flag)
  have pe: "persisted (syncVault env p) = persisted p"
    using f sync_guard_frame [OF assms(1)] by (simp add: sv)
  show ?thesis
    by (simp add: ne t fl pe)
qed


text \<open>A clean repository on a detached head.\<close>

theorem no_branch_aborts_as_generic_error_witness:
  "sync_guard env_no_branch plugin0 = Inr started0 \<and>
   initialStatus env_no_branch = Inr status0 \<and>
   \<not> hasLocalChanges status0 \<and>
   fetchResult env_no_branch = Inr () \<and>
   statusAfterFetch env_no_branch = Inr (status0\<lparr>current := None, tracking := None\<rparr>) \<and>
   \<not> truthy (current (status0\<lparr>current := None, tracking := None\<rparr>)) \<and>
   git_calls (new_events started0 (syncVault env_no_branch plugin0)) =
     [status_call, fetch_call, status_call] \<and>
   statuses (new_events started0 (syncVault env_no_branch plugin0)) = [''Git Sync: Sync Error'']"
proof -
  have g: "sync_guard env_no_branch plugin0 = Inr started0"
    by (rule started0)
  have i: "initialStatus env_no_branch = Inr status0"
    by (simp add: env_no_branch_def env0_def)
  have h: "\<not> hasLocalChanges status0"
    by (simp add: hasLocalChanges_def status0_def)
  then have d: "\<not> hasLocalChanges status0 \<or> stashResult env_no_branch = Inr []"
    by simp
  have f: "fetchResult env_no_branch = Inr ()"
    by (simp add: env_no_branch_def env0_def)
  have a: "statusAfterFetch env_no_branch = Inr (status0\<lparr>current := None, tracking := None\<rparr>)"
    by (simp add: env_no_branch_def env0_def)
  have c: "\<not> truthy (current (status0\<lparr>current := None, tracking := None\<rparr>))"
    by (simp add: truthy_def)
  from no_branch_aborts_as_generic_error [OF g i d f a c] g i h f a c show ?thesis
    by (simp add: stash_calls_def)
qed

text \<open>
  The counterexample to claim C4 as stated. On a detached head the run stops at the
  second status, and \<^verbatim>\<open>handleSyncError\<close> reports the error with its general
  branch: the status bar reads \<^verbatim>\<open>Sync Error\<close> and the notice is the general
  \<^verbatim>\<open>Error - ...\<close> one. The classifier has no branch for a configuration error.
\<close>

theorem no_branch_reported_as_sync_error:
  "classify (new_Error ''Git Sync: Not on a branch, cannot sync.'') =
     (''Git Sync: Error - Git Sync: Not on a branch, cannot sync....'', Some ''Sync Error'') \<and>
   new_events started0 (syncVault env_no_branch plugin0) =
     [Git status_call, Git fetch_call, Git status_call,
      Notice ''Git Sync: Not on a branch. Please checkout a branch to sync.'',
      Status ''Git Sync: Sync Error'',
      Notice ''Git Sync: Error - Git Sync: Not on a branch, cannot sync....'']"
  by (simp add: run_defs plugin0_def started0_def settings0_def env_no_branch_def env0_def
      status0_def new_Error_def classify_def error_text_def)

section \<open>After the stage step\<close>

lemma rebase_step_branch:
  "rebase_step env p = (Done b, q) \<Longrightarrow> \<exists>sf. statusAfterFetch env = Inr sf \<and> current sf = Some b"
  by (auto simp: rebase_step_def await_def Let_def split: sum.splits if_splits option.splits)

lemma sync_try_stage [consumes 1, case_names early staged]:
  assumes "sync_try env p = (x, st, q)"
  obtains "step_calls before_stage p q" "x \<noteq> Done ()"
  | b sf q4 where "step_calls before_stage p q4" "settings q4 = settings p"
      "persisted q4 = persisted p" "statusAfterFetch env = Inr sf" "current sf = Some b"
      "commit_step env b q4 = (x, q)"
  using assms
proof (cases rule: sync_try_paths)
  case (stash_threw e)
  from stash_step_calls [OF stash_threw(1)] have "step_calls before_stage p q"
    by (rule step_calls_mono) auto
  with stash_threw that(1) show ?thesis by simp
next
  case stash_returned
  from stash_step_calls [OF stash_returned(1)] have "step_calls before_stage p q"
    by (rule step_calls_mono) auto
  with stash_returned that(1) show ?thesis by simp
next
  case (fetch q1 e)
  from stash_step_calls [OF fetch(1)] have "step_calls before_stage p q1"
    by (rule step_calls_mono) auto
  with fetch that(1) show ?thesis by simp
next
  case (rebase q1 e)
  from stash_step_calls [OF rebase(1)] have "step_calls before_stage p q1"
    by (rule step_calls_mono) auto
  then have "step_calls before_stage p (emit (Git fetch_call) q1)" by simp
  from step_calls_trans [OF this rebase_step_calls [OF rebase(3)]]
  have "step_calls before_stage p q"
    by (rule step_calls_mono) auto
  with rebase that(1) show ?thesis by simp
next
  case (pop q1 b q3 e)
  from stash_step_calls [OF pop(1)] have "step_calls before_stage p q1"
    by (rule step_calls_mono) auto
  then have "step_calls before_stage p (emit (Git fetch_call) q1)" by simp
  from step_calls_trans [OF step_calls_trans [OF this rebase_step_calls [OF pop(3)]]
      pop_step_calls [OF pop(4)]]
  have "step_calls before_stage p q"
    by (rule step_calls_mono) auto
  with pop that(1) show ?thesis by simp
next
  case (commit q1 b q3 q4)
  from stash_step_calls [OF commit(1)] have "step_calls before_stage p q1"
    by (rule step_calls_mono) auto
  then have "step_calls before_stage p (emit (Git fetch_call) q1)" by simp
  from step_calls_trans [OF step_calls_trans [OF this rebase_step_calls [OF commit(3)]]
      pop_step_calls [OF commit(4)]]
  have c: "step_calls before_stage p q4"
    by (rule step_calls_mono) auto
  from stash_step_frame [OF commit(1)] rebase_step_frame [OF commit(3)]
    pop_step_frame [OF commit(4)]
  have f: "settings q4 = settings p" "persisted q4 = persisted p" by simp_all
  from rebase_step_branch [OF commit(3)] obtain sf where
    "statusAfterFetch env = Inr sf" "current sf = Some b" by blast
  with c f commit(5) that(2) show ?thesis by blast
qed

lemma before_stage_not_staging:
  "step_calls before_stage p q \<Longrightarrow> add_call a \<notin> set (git_calls (new_events p q))"
  by (auto dest: step_callsD simp: is_rebase_def)

lemma before_stage_not_publishing:
  "events q = events p @ es \<Longrightarrow> set (git_calls es) \<subseteq> before_stage \<Longrightarrow>
   filter publishes (git_calls es) = []"
  by (auto simp: filter_empty_conv publishes_def is_rebase_def split: git_call.splits)

text \<open>
  Claim C7. In every run that reaches the stage step, where the stage call succeeds
  and the status taken after it has no path with a staged state (an index state other
  than blank and \<^verbatim>\<open>?\<close>), the run makes no commit call and no push call,
  sets \<^verbatim>\<open>lastSync\<close> to the current time and saves the settings, and ends with
  the status bar \<^verbatim>\<open>Up-to-date\<close> and the up-to-date notice.
\<close>

theorem nothing_staged_is_up_to_date:
  assumes "sync_guard env p = Inr q"
    and "add_call ''./*'' \<in> set (git_calls (new_events q (syncVault env p)))"
    and "addResult env = Inr ()" and "finalStatus env = Inr fs"
    and "filesToCommit fs = []"
  shows "filter publishes (git_calls (new_events q (syncVault env p))) = [] \<and>
         settings (syncVault env p) = (settings p)\<lparr>lastSync := syncDate env\<rparr> \<and>
         persisted (syncVault env p) = settings (syncVault env p) \<and>
         last (new_events q (syncVault env p)) =
           Notice ''Git Sync: Vault is up-to-date. No local changes to commit.'' \<and>
         last (statuses (new_events q (syncVault env p))) = ''Git Sync: Up-to-date'' \<and>
         fst (sync_try env q) = Done ()"
proof -
  obtain x st q' where t: "sync_try env q = (x, st, q')"
    by (cases "sync_try env q") auto
  note sv = syncVault_run [OF assms(1)]
  from t show ?thesis
  proof (cases rule: sync_try_stage)
    case early
    from sync_run_calls [OF t early(1)] assms(2) show ?thesis
      by (simp add: sv before_stage_not_staging)
  next
    case (staged b sf q4)
    let ?q5 = "notice ''Git Sync: Vault is up-to-date. No local changes to commit.''
                 (updateStatusBar ''Up-to-date''
                   (stamp_and_save env (emit (Git status_call) (emit (Git (add_call ''./*'')) q4))))"
    from assms(3-5) have c: "commit_step env b q4 = (Done (), ?q5)"
      by (simp add: commit_step_def await_def)
    with staged(6) have x: "x = Done ()" "q' = ?q5" by simp_all
    from staged(1) obtain es where es: "events q4 = events q @ es"
      "set (git_calls es) \<subseteq> before_stage"
      by (auto simp: step_calls_def)
    have r: "syncVault env p = sync_finally ?q5"
      using t x by (simp add: sv sync_run_unfold [OF t])
    have ev: "events (syncVault env p) =
        events q @ (es @ [Git (add_call ''./*''), Git status_call,
          SaveData ((settings q)\<lparr>lastSync := syncDate env\<rparr>),
          Status ''Git Sync: Up-to-date'',
          Notice ''Git Sync: Vault is up-to-date. No local changes to commit.''])"
      by (simp add: r effect_defs es staged(2))
    note ne = new_events_append [OF ev]
    have s: "settings (syncVault env p) = (settings p)\<lparr>lastSync := syncDate env\<rparr>"
      "persisted (syncVault env p) = settings (syncVault env p)"
      using staged(2) sync_guard_frame [OF assms(1)]
      by (simp_all add: r effect_defs)
    from before_stage_not_publishing [OF es] s t x show ?thesis
      by (simp add: ne publishes_def)
  qed
qed


text \<open>A clean repository: nothing is staged after the stage step.\<close>

theorem nothing_staged_is_up_to_date_witness:
  "sync_guard env0 plugin0 = Inr started0 \<and>
   add_call ''./*'' \<in> set (git_calls (new_events started0 (syncVault env0 plugin0))) \<and>
   addResult env0 = Inr () \<and> finalStatus env0 = Inr status0 \<and>
   filesToCommit status0 = [] \<and>
   filter publishes (git_calls (new_events started0 (syncVault env0 plugin0))) = [] \<and>
   lastSync (settings (syncVault env0 plugin0)) = ''2024-05-01 10:00:02'' \<and>
   persisted (syncVault env0 plugin0) = settings (syncVault env0 plugin0) \<and>
   last (statuses (new_events started0 (syncVault env0 plugin0))) = ''Git Sync: Up-to-date''"
proof -
  have g: "sync_guard env0 plugin0 = Inr started0"
    by (rule started0)
  have r: "add_call ''./*'' \<in> set (git_calls (new_events started0 (syncVault env0 plugin0)))"
    by (simp add: run_env0)
  have a: "addResult env0 = Inr ()" and f: "finalStatus env0 = Inr status0"
    by (simp_all add: env0_def)
  have n: "filesToCommit status0 = []"
    by (simp add: filesToCommit_def status0_def)
  have d: "syncDate env0 = ''2024-05-01 10:00:02''"
    by (simp add: env0_def)
  from nothing_staged_is_up_to_date [OF g r a f n] g r a f n d show ?thesis
    by simp
qed

text \<open>
  Claim C8. In every run that reaches the stage step, where the stage call succeeds,
  the status taken after it has a staged path and no tracking branch, and the commit
  succeeds, the run makes the commit call and no push call, warns that the push was
  skipped because the branch tracks no remote, sets \<^verbatim>\<open>lastSync\<close> to the
  current time and saves the settings, and ends with the status bar
  \<^verbatim>\<open>Committed (not pushed)\<close>.
\<close>

theorem commit_without_upstream_not_pushed:
  assumes "sync_guard env p = Inr q"
    and "add_call ''./*'' \<in> set (git_calls (new_events q (syncVault env p)))"
    and "addResult env = Inr ()" and "finalStatus env = Inr fs"
    and "filesToCommit fs \<noteq> []"
    and "commitResult env = Inr ()"
    and "\<not> truthy (tracking fs)"
    and "statusAfterFetch env = Inr sf"
  shows "filter publishes (git_calls (new_events q (syncVault env p))) =
           [commit_call (str_replace (commitMessage (settings p)) ''{{date}}'' (commitDate env))] \<and>
         last (notices (new_events q (syncVault env p))) =
           ''Git Sync: Changes committed locally. Push skipped as branch '' @
           quoted (the (current sf)) @ '' is not tracking a remote.'' \<and>
         last (statuses (new_events q (syncVault env p))) = ''Git Sync: Committed (not pushed)'' \<and>
         last (new_events q (syncVault env p)) = Status ''Git Sync: Committed (not pushed)'' \<and>
         settings (syncVault env p) = (settings p)\<lparr>lastSync := syncDate env\<rparr> \<and>
         persisted (syncVault env p) = settings (syncVault env p) \<and>
         fst (sync_try env q) = Done ()"
proof -
  obtain x st q' where t: "sync_try env q = (x, st, q')"
    by (cases "sync_try env q") auto
  note sv = syncVault_run [OF assms(1)]
  from t show ?thesis
  proof (cases rule: sync_try_stage)
    case early
    from sync_run_calls [OF t early(1)] assms(2) show ?thesis
      by (simp add: sv before_stage_not_staging)
  next
    case (staged b sf' q4)
    let ?m = "str_replace (commitMessage (settings q4)) ''{{date}}'' (commitDate env)"
    let ?w = "''Git Sync: Changes committed locally. Push skipped as branch '' @
              quoted b @ '' is not tracking a remote.''"
    let ?q5 = "updateStatusBar ''Committed (not pushed)''
                 (stamp_and_save env
                   (notice ?w
                     (emit (Git (commit_call ?m))
                       (emit (Git status_call) (emit (Git (add_call ''./*'')) q4)))))"
    from assms(3-7) have c: "commit_step env b q4 = (Done (), ?q5)"
      by (simp add: commit_step_def await_def)
    with staged(6) have x: "x = Done ()" "q' = ?q5" by simp_all
    from staged(4,5) assms(8) have b: "the (current sf) = b" by simp
    from staged(1) obtain es where es: "events q4 = events q @ es"
      "set (git_calls es) \<subseteq> before_stage"
      by (auto simp: step_calls_def)
    have r: "syncVault env p = sync_finally ?q5"
      using t x by (simp add: sv sync_run_unfold [OF t])
    have ev: "events (syncVault env p) =
        events q @ (es @ [Git (add_call ''./*''), Git status_call, Git (commit_call ?m),
          Notice ?w,
          SaveData ((settings q)\<lparr>lastSync := syncDate env\<rparr>),
          Status ''Git Sync: Committed (not pushed)''])"
      by (simp add: r effect_defs es staged(2))
    note ne = new_events_append [OF ev]
    have s: "settings (syncVault env p) = (settings p)\<lparr>lastSync := syncDate env\<rparr>"
      "persisted (syncVault env p) = settings (syncVault env p)"
      "settings q4 = settings p"
      using staged(2) sync_guard_frame [OF assms(1)]
      by (simp_all add: r effect_defs)
    from before_stage_not_publishing [OF es] s t x b show ?thesis
      by (simp add: ne publishes_def)
  qed
qed

text \<open>A staged file on a branch without upstream.\<close>

theorem commit_without_upstream_not_pushed_witness:
  "sync_guard env_no_upstream plugin0 = Inr started0 \<and>
   add_call ''./*'' \<in> set (git_calls (new_events started0 (syncVault env_no_upstream plugin0))) \<and>
   addResult env_no_upstream = Inr () \<and>
   finalStatus env_no_upstream = Inr (status0\<lparr>files := [staged], tracking := None\<rparr>) \<and>
   filesToCommit (status0\<lparr>files := [staged], tracking := None\<rparr>) \<noteq> [] \<and>
   commitResult env_no_upstream = Inr () \<and>
   \<not> truthy (tracking (status0\<lparr>files := [staged], tracking := None\<rparr>)) \<and>
   statusAfterFetch env_no_upstream = Inr (status0\<lparr>tracking := None\<rparr>) \<and>
   filter publishes (git_calls (new_events started0 (syncVault env_no_upstream plugin0))) =
     [commit_call ''Vault auto-sync: 2024-05-01 10:00:00''] \<and>
   last (statuses (new_events started0 (syncVault env_no_upstream plugin0))) =
     ''Git Sync: Committed (not pushed)'' \<and>
   lastSync (settings (syncVault env_no_upstream plugin0)) = ''2024-05-01 10:00:02'' \<and>
   persisted (syncVault env_no_upstream plugin0) = settings (syncVault env_no_upstream plugin0)"
proof -
  have g: "sync_guard env_no_upstream plugin0 = Inr started0"
    by (rule started0)
  have r: "add_call ''./*'' \<in>
      set (git_calls (new_events started0 (syncVault env_no_upstream plugin0)))"
    by (simp add: run_env_no_upstream)
  have a: "addResult env_no_upstream = Inr ()"
    and f: "finalStatus env_no_upstream = Inr (status0\<lparr>files := [staged], tracking := None\<rparr>)"
    and c: "commitResult env_no_upstream = Inr ()"
    and sf: "statusAfterFetch env_no_upstream = Inr (status0\<lparr>tracking := None\<rparr>)"
    by (simp_all add: env_no_upstream_def env0_def)
  have n: "filesToCommit (status0\<lparr>files := [staged], tracking := None\<rparr>) \<noteq> []"
    by (simp add: filesToCommit_def staged_def)
  have u: "\<not> truthy (tracking (status0\<lparr>files := [staged], tracking := None\<rparr>))"
    by (simp add: truthy_def)
  have d: "syncDate env_no_upstream = ''2024-05-01 10:00:02''"
    "commitDate env_no_upstream = ''2024-05-01 10:00:00''"
    "commitMessage (settings plugin0) = ''Vault auto-sync: {{date}}''"
    by (simp_all add: env_no_upstream_def env0_def plugin0_def settings0_def)
  from commit_without_upstream_not_pushed [OF g r a f n c u sf] g r a f n c u sf d
  show ?thesis by simp
qed

section \<open>The rebase\<close>

lemma handleSyncError_events:
  "events (handleSyncError e p) =
     events p @ (case snd (classify e) of None \<Rightarrow> [] | Some t \<Rightarrow> [Status (''Git Sync: '' @ t)]) @
     [Notice (fst (classify e))]"
  by (simp add: handleSyncError_def effect_defs split: prod.splits option.splits)

lemma sync_run_calls_from:
  "sync_try env p = (x, st, q) \<Longrightarrow> step_calls A r q \<Longrightarrow> step_calls A r (sync_run env p)"
  by (simp add: sync_run_unfold sync_finally_def split: exit.splits)

lemma stash_calls_no_rebase [simp]: "filter is_rebase (stash_calls st) = []"
  by (simp add: stash_calls_def is_rebase_def)

lemma after_rebase_no_rebase:
  "set cs \<subseteq> {stash_call [''pop''], add_call ''./*'', status_call, commit_call m, push_call} \<Longrightarrow>
   filter is_rebase cs = []"
  by (auto simp: filter_empty_conv is_rebase_def)

lemma not_mentions_stash:
  "\<not> mentions_stash ''Git Sync: Merge conflict detected during rebase. Please resolve manually.''"
  "\<not> mentions_stash ''Git Sync: Rebase aborted. Please resolve conflicts and sync manually.''"
  "\<not> mentions_stash ''Git Sync: Critical! Could not abort rebase. Manual Git intervention required.''"
  "\<not> mentions_stash (fst (classify (new_Error ''Merge conflict during rebase, operation aborted.'')))"
  by (simp_all add: mentions_stash_def toLowerCase_def lower_char_def
      classify_rebase_conflict_error)

lemma rebase_step_attempt:
  assumes "statusAfterFetch env = Inr sf" and "current sf = Some b" and "b \<noteq> []"
    and "tracking sf = Some t" and "t \<noteq> []" and "0 < behind sf"
  shows "rebase_step env p =
    (let p3 = emit (Git (rebase_call [t])) (emit (Git status_call) p) in
     case rebaseResult env of
       Inr _ \<Rightarrow> (Done b, p3)
     | Inl rebaseError \<Rightarrow>
         if rebase_conflict env then
           (Threw (new_Error ''Merge conflict during rebase, operation aborted.''),
            notice (case abortResult env of
                      Inr _ \<Rightarrow> ''Git Sync: Rebase aborted. Please resolve conflicts and sync manually.''
                    | Inl _ \<Rightarrow> ''Git Sync: Critical! Could not abort rebase. Manual Git intervention required.'')
              (emit (Git (rebase_call [''--abort'']))
                (notice ''Git Sync: Merge conflict detected during rebase. Please resolve manually.'' p3)))
         else (Threw rebaseError,
               notice ''Git Sync: Rebase failed. Check Git status or console for details.'' p3))"
  using assms
  by (simp add: rebase_step_def await_def truthy_def rebase_conflict_def Let_def
      split: sum.splits)

lemma sync_catch_rebase_conflict:
  "sync_catch (new_Error ''Merge conflict during rebase, operation aborted.'') st p =
   handleSyncError (new_Error ''Merge conflict during rebase, operation aborted.'') p"
  by (simp add: sync_catch_def new_Error_def)

text \<open>
  Claim C2, as the code has it. In every run where the first status and, when there
  are local changes, the stash succeed, the fetch succeeds, and the second status has
  a current branch, a tracking branch \<open>t\<close> and \<^verbatim>\<open>behind > 0\<close>: the rebase onto
  \<open>t\<close> is called exactly once, and \<^verbatim>\<open>rebase --abort\<close> is called exactly once
  when the rebase is rejected with a message containing \<^verbatim>\<open>CONFLICT\<close>, and not at
  all otherwise. In that conflict case the abort is the last git call of the run (no
  stash pop, stage, commit or push follows), the error
  \<^verbatim>\<open>Merge conflict during rebase, operation aborted.\<close> goes to the top-level
  handler, and the notices of the run are the merge-conflict notice, the notice on the
  abort, and the report \<^verbatim>\<open>handleSyncError\<close> makes of that error: the handler's
  stash warning is not shown, and no notice speaks of the stash, also when
  \<^verbatim>\<open>stashed\<close> is true. Nothing is saved.
\<close>

theorem rebase_once_and_abort_on_conflict:
  assumes "sync_guard env p = Inr q"
    and "initialStatus env = Inr st"
    and "\<not> hasLocalChanges st \<or> stashResult env = Inr s"
    and "fetchResult env = Inr ()"
    and "statusAfterFetch env = Inr sf"
    and "current sf = Some b" and "b \<noteq> []"
    and "tracking sf = Some t" and "t \<noteq> []"
    and "0 < behind sf"
  shows "filter is_rebase (git_calls (new_events q (syncVault env p))) =
           rebase_call [t] # (if rebase_conflict env then [rebase_call [''--abort'']] else []) \<and>
         (rebase_conflict env \<longrightarrow>
            git_calls (new_events q (syncVault env p)) =
              stash_calls st @ [fetch_call, status_call, rebase_call [t], rebase_call [''--abort'']] \<and>
            fst (sync_try env q) =
              Threw (new_Error ''Merge conflict during rebase, operation aborted.'') \<and>
            notices (new_events q (syncVault env p)) =
              [''Git Sync: Merge conflict detected during rebase. Please resolve manually.'',
               (case abortResult env of
                  Inr _ \<Rightarrow> ''Git Sync: Rebase aborted. Please resolve conflicts and sync manually.''
                | Inl _ \<Rightarrow> ''Git Sync: Critical! Could not abort rebase. Manual Git intervention required.''),
               fst (classify (new_Error ''Merge conflict during rebase, operation aborted.''))] \<and>
            filter mentions_stash (notices (new_events q (syncVault env p))) = [] \<and>
            persisted (syncVault env p) = persisted p)"
proof -
  note sv = syncVault_run [OF assms(1)]
  from stash_step_Done [OF assms(2,3)] obtain stashed q1 where
    s: "stash_step env q = (Done stashed, q1)"
    and e: "events q1 = events q @ map Git (stash_calls st)"
    and f: "persisted q1 = persisted q"
    by blast
  obtain x st' q' where t: "sync_try env q = (x, st', q')"
    by (cases "sync_try env q") auto
  let ?p3 = "emit (Git (rebase_call [t])) (emit (Git status_call) (emit (Git fetch_call) q1))"
  have ev3: "events ?p3 =
      events q @ map Git (stash_calls st) @ [Git fetch_call, Git status_call, Git (rebase_call [t])]"
    by (simp add: emit_def e)
  note r = rebase_step_attempt [OF assms(5-10), of "emit (Git fetch_call) q1"]
  show ?thesis
  proof (cases "rebaseResult env")
    case (Inr u)
    then have nc: "\<not> rebase_conflict env"
      by (simp add: rebase_conflict_def)
    from r Inr have r3: "rebase_step env (emit (Git fetch_call) q1) = (Done b, ?p3)"
      by simp
    obtain x4 q4 where po: "pop_step env stashed ?p3 = (x4, q4)"
      by (cases "pop_step env stashed ?p3") auto
    have "\<exists>m. step_calls {stash_call [''pop''], add_call ''./*'', status_call, commit_call m, push_call} ?p3 q'"
    proof (cases x4)
      case (Done u4)
      obtain x5 q5 where co: "commit_step env b q4 = (x5, q5)"
        by (cases "commit_step env b q4") auto
      from t s assms(4) r3 po Done co have "q' = q5"
        by (simp add: sync_try_def await_def)
      with step_calls_trans [OF pop_step_calls [OF po] commit_step_calls [OF co]]
      show ?thesis
        by (auto elim!: step_calls_mono intro!: exI)
    next
      case Returned
      with po show ?thesis by (simp add: pop_step_not_Returned)
    next
      case (Threw e4)
      from t s assms(4) r3 po Threw have "q' = q4"
        by (simp add: sync_try_def await_def)
      with pop_step_calls [OF po] show ?thesis
        by (auto elim!: step_calls_mono intro!: exI)
    qed
    then obtain m where
      "step_calls {stash_call [''pop''], add_call ''./*'', status_call, commit_call m, push_call} ?p3 q'"
      by blast
    from sync_run_calls_from [OF t this] obtain es where
      es: "events (sync_run env q) = events ?p3 @ es"
        "set (git_calls es) \<subseteq> {stash_call [''pop''], add_call ''./*'', status_call, commit_call m, push_call}"
      by (auto simp: step_calls_def)
    from es(1) ev3 have "events (syncVault env p) =
        events q @ (map Git (stash_calls st) @
          [Git fetch_call, Git status_call, Git (rebase_call [t])] @ es)"
      by (simp add: sv)
    note ne = new_events_append [OF this]
    from after_rebase_no_rebase [OF es(2)] nc show ?thesis
      by (simp add: ne is_rebase_def)
  next
    case (Inl re)
    show ?thesis
    proof (cases "rebase_conflict env")
      case False
      let ?q3 = "notice ''Git Sync: Rebase failed. Check Git status or console for details.'' ?p3"
      from r Inl False have r3: "rebase_step env (emit (Git fetch_call) q1) = (Threw re, ?q3)"
        by simp
      with t s assms(4) have t': "sync_try env q = (Threw re, stashed, ?q3)"
        by (simp add: sync_try_def await_def)
      have "step_calls {} ?p3 (sync_catch re stashed ?q3)" by simp
      then obtain es where es: "events (sync_catch re stashed ?q3) = events ?p3 @ es"
        "git_calls es = []"
        by (auto simp: step_calls_def)
      from es(1) ev3 have "events (syncVault env p) =
          events q @ (map Git (stash_calls st) @
            [Git fetch_call, Git status_call, Git (rebase_call [t])] @ es)"
        by (simp add: sv sync_run_unfold [OF t'])
      note ne = new_events_append [OF this]
      from es(2) False show ?thesis
        by (simp add: ne is_rebase_def)
    next
      case True
      let ?err = "new_Error ''Merge conflict during rebase, operation aborted.''"
      let ?n2 = "case abortResult env of
                   Inr _ \<Rightarrow> ''Git Sync: Rebase aborted. Please resolve conflicts and sync manually.''
                 | Inl _ \<Rightarrow> ''Git Sync: Critical! Could not abort rebase. Manual Git intervention required.''"
      let ?q3 = "notice ?n2
              (emit (Git (rebase_call [''--abort'']))
                (notice ''Git Sync: Merge conflict detected during rebase. Please resolve manually.'' ?p3))"
      from r Inl True have r3: "rebase_step env (emit (Git fetch_call) q1) = (Threw ?err, ?q3)"
        by simp
      with t s assms(4) have t': "sync_try env q = (Threw ?err, stashed, ?q3)"
        by (simp add: sync_try_def await_def)
      have fin: "syncVault env p = sync_finally (handleSyncError ?err ?q3)"
        by (simp add: sv sync_run_unfold [OF t'] sync_catch_rebase_conflict)
      have "events (syncVault env p) =
          events q @ (map Git (stash_calls st) @
            [Git fetch_call, Git status_call, Git (rebase_call [t]),
             Notice ''Git Sync: Merge conflict detected during rebase. Please resolve manually.'',
             Git (rebase_call [''--abort'']), Notice ?n2] @
            (case snd (classify ?err) of None \<Rightarrow> [] | Some t \<Rightarrow> [Status (''Git Sync: '' @ t)]) @
            [Notice (fst (classify ?err))])"
        by (simp add: fin handleSyncError_events effect_defs e)
      note ne = new_events_append [OF this]
      have n2: "\<not> mentions_stash ?n2"
        by (simp add: not_mentions_stash split: sum.splits)
      have pe: "persisted (syncVault env p) = persisted p"
        using f sync_guard_frame [OF assms(1)]
        by (simp add: fin handleSyncError_frame)
      from True t' pe n2 show ?thesis
        by (simp add: ne is_rebase_def not_mentions_stash split: option.splits)
    qed
  qed
qed


text \<open>
  The counterexample to claim C2 as stated. Local changes are stashed, the branch is
  two commits behind its tracking branch, and the rebase stops on a conflict. The run
  ends with \<^verbatim>\<open>stashed\<close> true and the stash never popped, and its three notices
  are about the conflict and the abort: none reports the stash as pending.
\<close>

theorem rebase_conflict_leaves_stash_unreported:
  "fst (snd (sync_try env_rebase_conflict started0)) \<and>
   git_calls (new_events started0 (syncVault env_rebase_conflict plugin0)) =
     [status_call, stash_call push_args, fetch_call, status_call,
      rebase_call [''origin/main''], rebase_call [''--abort'']] \<and>
   notices (new_events started0 (syncVault env_rebase_conflict plugin0)) =
     [''Git Sync: Merge conflict detected during rebase. Please resolve manually.'',
      ''Git Sync: Rebase aborted. Please resolve conflicts and sync manually.'',
      ''Git Sync: A conflict occurred. Please resolve it manually in your Git client.''] \<and>
   filter mentions_stash (notices (new_events started0 (syncVault env_rebase_conflict plugin0))) = []"
  by (simp add: run_defs plugin0_def started0_def settings0_def env_rebase_conflict_def env0_def
      status0_def modified_def new_Error_def classify_def error_text_def toLowerCase_def
      lower_char_def mentions_stash_def)

theorem rebase_once_and_abort_on_conflict_witness:
  "sync_guard env_rebase_conflict plugin0 = Inr started0 \<and>
   initialStatus env_rebase_conflict = Inr (status0\<lparr>files := [modified]\<rparr>) \<and>
   stashResult env_rebase_conflict = Inr ''Saved working directory'' \<and>
   fetchResult env_rebase_conflict = Inr () \<and>
   statusAfterFetch env_rebase_conflict = Inr (status0\<lparr>behind := 2\<rparr>) \<and>
   current (status0\<lparr>behind := 2\<rparr>) = Some ''main'' \<and>
   tracking (status0\<lparr>behind := 2\<rparr>) = Some ''origin/main'' \<and>
   0 < behind (status0\<lparr>behind := 2\<rparr>) \<and>
   rebase_conflict env_rebase_conflict \<and>
   filter is_rebase (git_calls (new_events started0 (syncVault env_rebase_conflict plugin0))) =
     [rebase_call [''origin/main''], rebase_call [''--abort'']] \<and>
   fst (sync_try env_rebase_conflict started0) =
     Threw (new_Error ''Merge conflict during rebase, operation aborted.'') \<and>
   filter mentions_stash (notices (new_events started0 (syncVault env_rebase_conflict plugin0))) = []"
proof -
  have g: "sync_guard env_rebase_conflict plugin0 = Inr started0"
    by (rule started0)
  have i: "initialStatus env_rebase_conflict = Inr (status0\<lparr>files := [modified]\<rparr>)"
    by (simp add: env_rebase_conflict_def env0_def)
  have s: "stashResult env_rebase_conflict = Inr ''Saved working directory''"
    by (simp add: env_rebase_conflict_def env0_def)
  then have d: "\<not> hasLocalChanges (status0\<lparr>files := [modified]\<rparr>) \<or>
      stashResult env_rebase_conflict = Inr ''Saved working directory''"
    by simp
  have f: "fetchResult env_rebase_conflict = Inr ()"
    by (simp add: env_rebase_conflict_def env0_def)
  have a: "statusAfterFetch env_rebase_conflict = Inr (status0\<lparr>behind := 2\<rparr>)"
    by (simp add: env_rebase_conflict_def env0_def)
  have c: "current (status0\<lparr>behind := 2\<rparr>) = Some ''main''" "''main'' \<noteq> []"
    by (simp_all add: status0_def)
  have t: "tracking (status0\<lparr>behind := 2\<rparr>) = Some ''origin/main''" "''origin/main'' \<noteq> []"
    by (simp_all add: status0_def)
  have b: "0 < behind (status0\<lparr>behind := 2\<rparr>)"
    by simp
  have r: "rebase_conflict env_rebase_conflict"
    by (simp add: rebase_conflict_def env_rebase_conflict_def env0_def new_Error_def)
  note th = rebase_once_and_abort_on_conflict [OF g i d f a c t b]
  from conjunct1 [OF th] r
  have 1: "filter is_rebase (git_calls (new_events started0 (syncVault env_rebase_conflict plugin0))) =
      [rebase_call [''origin/main''], rebase_call [''--abort'']]"
    by (simp only: if_True)
  from conjunct2 [OF th] r
  have 2: "fst (sync_try env_rebase_conflict started0) =
      Threw (new_Error ''Merge conflict during rebase, operation aborted.'')"
    and 3: "filter mentions_stash
      (notices (new_events started0 (syncVault env_rebase_conflict plugin0))) = []"
    by blast+
  from g i s f a c(1) t(1) b r 1 2 3 show ?thesis
    by (intro conjI)
qed

section \<open>Failed runs save nothing\<close>

lemma commit_step_Done:
  "commit_step env b p = (Done (), q) \<Longrightarrow>
   \<exists>es. events q = events p @ es \<and> statuses es \<noteq> [] \<and>
     last (statuses es) \<in>
       {''Git Sync: Synced'', ''Git Sync: Committed (not pushed)'', ''Git Sync: Up-to-date''} \<and>
     settings q = (settings p)\<lparr>lastSync := syncDate env\<rparr> \<and>
     persisted q = settings q"
  by (auto simp: commit_step_def effect_defs split: sum.splits if_splits)

text \<open>
  Claim C9. In every run whose \<^verbatim>\<open>try\<close> block does not run to its end (it throws,
  so that the top-level \<^verbatim>\<open>catch\<close> handles the error, or it returns after a rejected
  stash), the record saved by \<^verbatim>\<open>saveData\<close> and the settings in memory,
  \<^verbatim>\<open>lastSync\<close> included, are at the end of the run what they were at the
  invocation. A run whose \<^verbatim>\<open>try\<close> block runs to its end saves the settings with the
  new \<^verbatim>\<open>lastSync\<close> and ends on one of the three statuses \<^verbatim>\<open>Synced\<close>,
  \<^verbatim>\<open>Committed (not pushed)\<close> and \<^verbatim>\<open>Up-to-date\<close>.
\<close>

theorem failed_run_keeps_settings:
  assumes "sync_guard env p = Inr q"
  shows "(fst (sync_try env q) \<noteq> Done () \<longrightarrow>
            persisted (syncVault env p) = persisted p \<and>
            settings (syncVault env p) = settings p) \<and>
         (fst (sync_try env q) = Done () \<longrightarrow>
            persisted (syncVault env p) = (settings p)\<lparr>lastSync := syncDate env\<rparr> \<and>
            last (statuses (new_events q (syncVault env p))) \<in>
              {''Git Sync: Synced'', ''Git Sync: Committed (not pushed)'', ''Git Sync: Up-to-date''})"
proof -
  obtain x st q' where t: "sync_try env q = (x, st, q')"
    by (cases "sync_try env q") auto
  note sv = syncVault_run [OF assms] sync_run_unfold [OF t]
  show ?thesis
  proof (cases "x = Done ()")
    case False
    from sync_try_frame [OF t False] sync_guard_frame [OF assms] False t
    show ?thesis
      by (simp add: sv split: exit.splits)
  next
    case True
    from t show ?thesis
    proof (cases rule: sync_try_stage)
      case early
      with True show ?thesis by simp
    next
      case (staged b sf q4)
      from commit_step_Done [OF staged(6) [unfolded True]] obtain es where
        es: "events q' = events q4 @ es" "statuses es \<noteq> []"
          "last (statuses es) \<in>
            {''Git Sync: Synced'', ''Git Sync: Committed (not pushed)'', ''Git Sync: Up-to-date''}"
          "settings q' = (settings q4)\<lparr>lastSync := syncDate env\<rparr>"
          "persisted q' = settings q'"
        by blast
      from staged(1) obtain es0 where "events q4 = events q @ es0"
        by (auto simp: step_calls_def)
      with es(1) True have "events (syncVault env p) = events q @ (es0 @ es)"
        by (simp add: sv)
      note ne = new_events_append [OF this]
      from es(2) have "last (statuses (new_events q (syncVault env p))) = last (statuses es)"
        by (simp add: ne)
      with es(3) have l: "last (statuses (new_events q (syncVault env p))) \<in>
          {''Git Sync: Synced'', ''Git Sync: Committed (not pushed)'', ''Git Sync: Up-to-date''}"
        by simp
      from es(4,5) staged(2) sync_guard_frame [OF assms] True
      have "persisted (syncVault env p) = (settings p)\<lparr>lastSync := syncDate env\<rparr>"
        by (simp add: sv)
      with l t True show ?thesis by simp
    qed
  qed
qed

text \<open>The run whose fetch is rejected, and the run on a clean repository.\<close>

theorem failed_run_keeps_settings_witness:
  "sync_guard env_fetch_fails plugin0 = Inr started0 \<and>
   fst (sync_try env_fetch_fails started0) \<noteq> Done () \<and>
   persisted (syncVault env_fetch_fails plugin0) = persisted plugin0 \<and>
   settings (syncVault env_fetch_fails plugin0) = settings plugin0 \<and>
   sync_guard env0 plugin0 = Inr started0 \<and>
   fst (sync_try env0 started0) = Done () \<and>
   persisted (syncVault env0 plugin0) = (settings plugin0)\<lparr>lastSync := syncDate env0\<rparr> \<and>
   last (statuses (new_events started0 (syncVault env0 plugin0))) = ''Git Sync: Up-to-date''"
proof -
  have g: "sync_guard env_fetch_fails plugin0 = Inr started0"
    and g0: "sync_guard env0 plugin0 = Inr started0"
    by (rule started0)+
  have t: "fst (sync_try env_fetch_fails started0) \<noteq> Done ()"
    by (simp add: sync_try_def stash_step_def await_def env_fetch_fails_def env0_def
        hasLocalChanges_def status0_def)
  have t0: "fst (sync_try env0 started0) = Done ()"
    by (simp add: sync_try_def stash_step_def rebase_step_def pop_step_def commit_step_def
        await_def env0_def hasLocalChanges_def filesToCommit_def status0_def truthy_def)
  have l: "last (statuses (new_events started0 (syncVault env0 plugin0))) = ''Git Sync: Up-to-date''"
    by (simp add: run_env0)
  from failed_run_keeps_settings [OF g] t
  have 1: "persisted (syncVault env_fetch_fails plugin0) = persisted plugin0"
    and 2: "settings (syncVault env_fetch_fails plugin0) = settings plugin0"
    by blast+
  from failed_run_keeps_settings [OF g0] t0
  have 3: "persisted (syncVault env0 plugin0) = (settings plugin0)\<lparr>lastSync := syncDate env0\<rparr>"
    by blast
  from g t 1 2 g0 t0 3 l show ?thesis
    by (intro conjI)
qed


end
